theory Spec2Isabelle
  imports Complex_Main "HOL-Library.Word" "HOL-Library.AList"
begin

section \<open>Strings of the host language\<close>

text \<open>
  A string of the source is a sequence of 16-bit code units. \<open>js\<close> turns a literal of
  ASCII characters into such a sequence.
\<close>

type_synonym jchar = "16 word"
type_synonym jstring = "jchar list"

definition js :: "string \<Rightarrow> jstring" where
  "js cs = map (\<lambda>c. of_nat (of_char c)) cs"

text \<open>The white space removed by \<open>String.prototype.trim\<close> (WhiteSpace and LineTerminator).\<close>

definition isTrimSpace :: "jchar \<Rightarrow> bool" where
  "isTrimSpace c \<longleftrightarrow>
     c = 0x09 \<or> c = 0x0A \<or> c = 0x0B \<or> c = 0x0C \<or> c = 0x0D \<or> c = 0x20 \<or> c = 0xA0 \<or>
     c = 0x1680 \<or> (0x2000 \<le> c \<and> c \<le> 0x200A) \<or> c = 0x2028 \<or> c = 0x2029 \<or>
     c = 0x202F \<or> c = 0x205F \<or> c = 0x3000 \<or> c = 0xFEFF"

definition trim :: "jstring \<Rightarrow> jstring" where
  "trim t = rev (dropWhile isTrimSpace (rev (dropWhile isTrimSpace t)))"

section \<open>Node model (types.ts)\<close>

text \<open>
  \<open>XmlNode\<close>: the attribute record is kept as an association list in insertion order (the
  order \<open>Object.entries\<close> enumerates); only own properties are modelled, keys inherited
  from \<open>Object.prototype\<close> are not.
\<close>

datatype XmlNode = XmlNode
  (node_name: jstring)
  (node_attributes: "(jstring \<times> jstring) list")
  (node_children: "XmlNode list")
  (node_text: "jstring option")
  (node_namespace: "jstring option")

record ValidationError =
  err_line :: nat
  err_column :: nat
  err_message :: jstring
  err_code :: jstring

section \<open>The parser (xml-parser.ts)\<close>

text \<open>
  The cursor of \<open>XmlParser\<close>. The pair of the fields \<open>xml\<close> and \<open>position\<close> is held as
  the offset \<open>position\<close> together with the unread suffix \<open>rest = xml.slice(position)\<close>, so
  that \<open>position < xml.length\<close> is \<open>rest \<noteq> []\<close>.
\<close>

record pstate =
  rest :: jstring
  position :: nat
  line :: nat
  column :: nat

text \<open>
  A call either returns a value and the cursor, or throws an \<open>Error\<close> with a message.
  The depth of the call stack is not bounded in the model.
\<close>

datatype 'a result = Throw jstring pstate | Ok 'a pstate

definition current :: "pstate \<Rightarrow> jstring" where
  "current s = take 1 (rest s)"

definition peek :: "nat \<Rightarrow> pstate \<Rightarrow> jstring" where
  "peek offset s = take 1 (drop offset (rest s))"

definition advance :: "pstate \<Rightarrow> pstate" where
  "advance s =
     (case rest s of
        [] \<Rightarrow> s
      | c # cs \<Rightarrow>
          (if c = 0x0A
           then s\<lparr>rest := cs, position := position s + 1, line := line s + 1, column := 1\<rparr>
           else s\<lparr>rest := cs, position := position s + 1, column := column s + 1\<rparr>))"

definition isWhitespace :: "jstring \<Rightarrow> bool" where
  "isWhitespace ch \<longleftrightarrow> ch = js '' '' \<or> ch = [0x09] \<or> ch = [0x0A] \<or> ch = [0x0D]"

definition isAsciiLetter :: "jchar \<Rightarrow> bool" where
  "isAsciiLetter c \<longleftrightarrow> (0x61 \<le> c \<and> c \<le> 0x7A) \<or> (0x41 \<le> c \<and> c \<le> 0x5A)"

definition isDigit :: "jchar \<Rightarrow> bool" where
  "isDigit c \<longleftrightarrow> 0x30 \<le> c \<and> c \<le> 0x39"

definition highNameChar :: "jstring \<Rightarrow> bool" where
  "highNameChar ch \<longleftrightarrow>
     (case ch of [] \<Rightarrow> False
      | c # _ \<Rightarrow> (0xC0 \<le> c \<and> c \<le> 0xD6) \<or> (0xD8 \<le> c \<and> c \<le> 0xF6) \<or> 0xF8 \<le> c)"

definition isNameStartChar :: "jstring \<Rightarrow> bool" where
  "isNameStartChar ch \<longleftrightarrow>
     (if ch = [] then False
      else list_ex (\<lambda>c. isAsciiLetter c \<or> c = 0x5F) ch \<or> highNameChar ch)"

definition isNameChar :: "jstring \<Rightarrow> bool" where
  "isNameChar ch \<longleftrightarrow>
     (if ch = [] then False
      else list_ex (\<lambda>c. isAsciiLetter c \<or> isDigit c \<or> c = 0x5F \<or> c = 0x3A \<or> c = 0x2E \<or> c = 0x2D) ch
           \<or> highNameChar ch)"

function skipWhitespace :: "pstate \<Rightarrow> pstate" where
  "skipWhitespace s =
     (if rest s \<noteq> [] \<and> isWhitespace (current s) then skipWhitespace (advance s) else s)"
  by pat_completeness auto
termination
  by (relation "measure (\<lambda>s. length (rest s))") (auto simp: advance_def split: list.splits)

declare skipWhitespace.simps [simp del]

function nameLoop :: "jstring \<Rightarrow> pstate \<Rightarrow> jstring \<times> pstate" where
  "nameLoop nm s =
     (if rest s \<noteq> [] \<and> isNameChar (current s)
      then nameLoop (nm @ current s) (advance s) else (nm, s))"
  by pat_completeness auto
termination
  by (relation "measure (\<lambda>(nm, s). length (rest s))") (auto simp: advance_def split: list.splits)

declare nameLoop.simps [simp del]

definition parseName :: "pstate \<Rightarrow> jstring result" where
  "parseName s =
     (let firstChar = current s in
      if \<not> isNameStartChar firstChar
      then Throw (js ''Invalid name start character: '' @ [0x27] @ firstChar @ [0x27]) s
      else (case nameLoop [] s of
              (nm, s') \<Rightarrow> if nm = [] then Throw (js ''Expected element name'') s' else Ok nm s'))"

subsection \<open>Entities and attribute values\<close>

text \<open>
  \<open>parseInt(string, radix)\<close> for the calls of the source: radix 10, radix 16 and no radix
  (\<open>None\<close>). Leading white space and a sign are dropped; with radix 16 or no radix a prefix
  \<open>0x\<close> or \<open>0X\<close> is dropped and selects radix 16; the longest prefix of digits is read. The
  result \<open>None\<close> is \<open>NaN\<close>. The value is the exact integer (the rounding of integers beyond
  \<open>2^53\<close> to a double is not modelled).
\<close>

definition digitValue :: "jchar \<Rightarrow> nat option" where
  "digitValue c =
     (if 0x30 \<le> c \<and> c \<le> 0x39 then Some (unat c - 0x30)
      else if 0x61 \<le> c \<and> c \<le> 0x7A then Some (unat c - 0x61 + 10)
      else if 0x41 \<le> c \<and> c \<le> 0x5A then Some (unat c - 0x41 + 10)
      else None)"

definition isRadixDigit :: "nat \<Rightarrow> jchar \<Rightarrow> bool" where
  "isRadixDigit radix c = (case digitValue c of None \<Rightarrow> False | Some d \<Rightarrow> d < radix)"

definition digitsValue :: "nat \<Rightarrow> jstring \<Rightarrow> nat" where
  "digitsValue radix ds = foldl (\<lambda>acc c. acc * radix + the (digitValue c)) 0 ds"

definition parseInt :: "jstring \<Rightarrow> nat option \<Rightarrow> int option" where
  "parseInt str radix =
     (let s0 = dropWhile isTrimSpace str;
          negative = (take 1 s0 = js ''-'');
          s1 = (if take 1 s0 = js ''-'' \<or> take 1 s0 = js ''+'' then drop 1 s0 else s0);
          hex = ((radix = None \<or> radix = Some 16) \<and> (take 2 s1 = js ''0x'' \<or> take 2 s1 = js ''0X''));
          r = (if hex then 16 else case radix of None \<Rightarrow> 10 | Some n \<Rightarrow> n);
          s2 = (if hex then drop 2 s1 else s1);
          ds = takeWhile (isRadixDigit r) s2
      in if ds = [] then None
         else Some (if negative then - int (digitsValue r ds) else int (digitsValue r ds)))"

text \<open>\<open>String.fromCharCode\<close>: \<open>NaN\<close> becomes 0, any other number is taken modulo \<open>2^16\<close>.\<close>

definition fromCharCode :: "int option \<Rightarrow> jstring" where
  "fromCharCode code = (case code of None \<Rightarrow> [0] | Some n \<Rightarrow> [word_of_int n])"

definition startsWith :: "jstring \<Rightarrow> jstring \<Rightarrow> bool" where
  "startsWith str pre \<longleftrightarrow> take (length pre) str = pre"

definition decodeEntity :: "jstring \<Rightarrow> jstring" where
  "decodeEntity entity =
     (if entity = js ''amp'' then js ''&''
      else if entity = js ''lt'' then js ''<''
      else if entity = js ''gt'' then js ''>''
      else if entity = js ''quot'' then [0x22]
      else if entity = js ''apos'' then [0x27]
      else if startsWith entity (js ''#'')
      then fromCharCode (if startsWith entity (js ''#x'')
                         then parseInt (drop 2 entity) (Some 16)
                         else parseInt (drop 1 entity) (Some 10))
      else js ''&'' @ entity @ js '';'')"

function entityLoop :: "jstring \<Rightarrow> pstate \<Rightarrow> jstring \<times> pstate" where
  "entityLoop entity s =
     (if rest s \<noteq> [] \<and> current s \<noteq> js '';''
      then entityLoop (entity @ current s) (advance s) else (entity, s))"
  by pat_completeness auto
termination
  by (relation "measure (\<lambda>(e, s). length (rest s))") (auto simp: advance_def split: list.splits)

declare entityLoop.simps [simp del]

definition parseEntity :: "pstate \<Rightarrow> jstring result" where
  "parseEntity s =
     (if current s \<noteq> js ''&'' then Throw (js ''Expected entity'') s
      else (case entityLoop [] (advance s) of
              (entity, s') \<Rightarrow>
                if current s' \<noteq> js '';'' then Throw (js ''Unterminated entity'') s'
                else Ok (decodeEntity entity) (advance s')))"

lemma advance_le: "length (rest (advance s)) \<le> length (rest s)"
  by (simp add: advance_def split: list.splits)

lemma advance_less: "rest s \<noteq> [] \<Longrightarrow> length (rest (advance s)) < length (rest s)"
  by (simp add: advance_def split: list.splits)

lemma skipWhitespace_le: "length (rest (skipWhitespace s)) \<le> length (rest s)"
proof (induction s rule: skipWhitespace.induct)
  case (1 s)
  show ?case
  proof (cases "rest s \<noteq> [] \<and> isWhitespace (current s)")
    case True
    with 1 have "length (rest (skipWhitespace (advance s))) \<le> length (rest (advance s))"
      by simp
    with True show ?thesis
      using advance_le [of s] by (subst skipWhitespace.simps) simp
  next
    case False
    then show ?thesis by (subst skipWhitespace.simps) auto
  qed
qed

lemma entityLoop_le: "entityLoop e s = (e', s') \<Longrightarrow> length (rest s') \<le> length (rest s)"
proof (induction e s rule: entityLoop.induct)
  case (1 entity s)
  show ?case
  proof (cases "rest s \<noteq> [] \<and> current s \<noteq> js '';''")
    case True
    with 1 have "length (rest s') \<le> length (rest (advance s))"
      by (simp add: entityLoop.simps [of entity s])
    then show ?thesis using advance_le [of s] by simp
  next
    case False
    with 1 show ?thesis by (simp add: entityLoop.simps [of entity s])
  qed
qed

lemma current_nonempty: "current s = c # cs \<Longrightarrow> rest s \<noteq> []"
  by (auto simp: current_def)

lemma parseEntity_less:
  assumes "parseEntity s = Ok v s'"
  shows "length (rest s') < length (rest s)"
proof -
  from assms have amp: "current s = js ''&''"
    by (auto simp: parseEntity_def split: if_splits)
  then have ne: "rest s \<noteq> []"
    by (auto simp: current_def js_def)
  obtain e s1 where loop: "entityLoop [] (advance s) = (e, s1)"
    by (cases "entityLoop [] (advance s)")
  with assms amp have "s' = advance s1"
    by (auto simp: parseEntity_def split: if_splits)
  moreover have "length (rest s1) \<le> length (rest (advance s))"
    using loop by (rule entityLoop_le)
  ultimately show ?thesis
    using advance_le [of s1] advance_less [OF ne] by simp
qed

function attributeValueLoop :: "jstring \<Rightarrow> jstring \<Rightarrow> pstate \<Rightarrow> jstring result" where
  "attributeValueLoop quote val s =
     (if rest s \<noteq> [] \<and> current s \<noteq> quote
      then (if current s = js ''&''
            then (case parseEntity s of
                    Throw m e \<Rightarrow> Throw m e
                  | Ok v s' \<Rightarrow> attributeValueLoop quote (val @ v) s')
            else attributeValueLoop quote (val @ current s) (advance s))
      else Ok val s)"
  by pat_completeness auto
termination
  by (relation "measure (\<lambda>(q, v, s). length (rest s))")
     (auto simp: advance_less dest: parseEntity_less)

declare attributeValueLoop.simps [simp del]

definition parseAttributeValue :: "pstate \<Rightarrow> jstring result" where
  "parseAttributeValue s =
     (let quote = current s in
      if quote \<noteq> [0x22] \<and> quote \<noteq> [0x27]
      then Throw (js ''Expected quote but found '' @ [0x27] @ quote @ [0x27]) s
      else (case attributeValueLoop quote [] (advance s) of
              Throw m e \<Rightarrow> Throw m e
            | Ok val s' \<Rightarrow>
                if current s' \<noteq> quote then Throw (js ''Unterminated attribute value'') s'
                else Ok val (advance s')))"

lemma nameLoop_length:
  "nameLoop nm s = (nm', s') \<Longrightarrow> length (rest s') + length nm' = length (rest s) + length nm"
proof (induction nm s rule: nameLoop.induct)
  case (1 nm s)
  show ?case
  proof (cases "rest s \<noteq> [] \<and> isNameChar (current s)")
    case True
    then obtain c cs where r: "rest s = c # cs"
      by (cases "rest s") auto
    from True 1 have "length (rest s') + length nm' = length (rest (advance s)) + length (nm @ current s)"
      by (simp add: nameLoop.simps [of nm s])
    with r show ?thesis
      by (simp add: advance_def current_def)
  next
    case False
    with 1 show ?thesis by (simp add: nameLoop.simps [of nm s])
  qed
qed

lemma parseName_less:
  assumes "parseName s = Ok nm s'"
  shows "length (rest s') < length (rest s)"
proof -
  obtain n1 s1 where loop: "nameLoop [] s = (n1, s1)"
    by (cases "nameLoop [] s")
  with assms have "n1 \<noteq> []" and "s' = s1"
    by (auto simp: parseName_def Let_def split: if_splits)
  with nameLoop_length [OF loop] show ?thesis
    by (cases n1) auto
qed

lemma attributeValueLoop_le:
  "attributeValueLoop q v s = Ok v' s' \<Longrightarrow> length (rest s') \<le> length (rest s)"
proof (induction q v s rule: attributeValueLoop.induct)
  case (1 quote val s)
  show ?case
  proof (cases "rest s \<noteq> [] \<and> current s \<noteq> quote")
    case False
    with 1 show ?thesis by (simp add: attributeValueLoop.simps [of quote val s])
  next
    case True
    show ?thesis
    proof (cases "current s = js ''&''")
      case amp: True
      with True "1.prems" obtain w s1 where
        e: "parseEntity s = Ok w s1" and r: "attributeValueLoop quote (val @ w) s1 = Ok v' s'"
        by (auto simp: attributeValueLoop.simps [of quote val s] split: result.splits)
      from "1.IH"(1) [OF True amp e r] parseEntity_less [OF e] show ?thesis by simp
    next
      case noamp: False
      with True "1.prems" have "attributeValueLoop quote (val @ current s) (advance s) = Ok v' s'"
        by (simp add: attributeValueLoop.simps [of quote val s])
      from "1.IH"(2) [OF True noamp this] advance_le [of s] show ?thesis by simp
    qed
  qed
qed

lemma parseAttributeValue_le:
  assumes "parseAttributeValue s = Ok v s'"
  shows "length (rest s') \<le> length (rest s)"
proof -
  from assms obtain s1 where
    l: "attributeValueLoop (current s) [] (advance s) = Ok v s1" and s': "s' = advance s1"
    by (auto simp: parseAttributeValue_def Let_def split: if_splits result.splits)
  from attributeValueLoop_le [OF l] advance_le [of s] advance_le [of s1] s'
  show ?thesis by simp
qed

function attributesLoop :: "(jstring \<times> jstring) list \<Rightarrow> pstate \<Rightarrow> (jstring \<times> jstring) list result" where
  "attributesLoop attrs s =
     (if rest s \<noteq> []
      then (if current (skipWhitespace s) = js ''>'' \<or> current (skipWhitespace s) = js ''/''
               \<or> current (skipWhitespace s) = js ''?''
            then Ok attrs (skipWhitespace s)
            else (case parseName (skipWhitespace s) of
                    Throw m e \<Rightarrow> Throw m e
                  | Ok nm s2 \<Rightarrow>
                      if current (skipWhitespace s2) \<noteq> js ''=''
                      then Throw (js ''Expected '' @ [0x27] @ js ''='' @ [0x27]
                                  @ js '' after attribute name '' @ [0x27] @ nm @ [0x27])
                                 (skipWhitespace s2)
                      else (case parseAttributeValue (skipWhitespace (advance (skipWhitespace s2))) of
                              Throw m e \<Rightarrow> Throw m e
                            | Ok v s5 \<Rightarrow> attributesLoop (AList.update nm v attrs) s5)))
      else Ok attrs s)"
  by pat_completeness auto
termination
proof (relation "measure (\<lambda>(a, s). length (rest s))", goal_cases)
  case 1
  show ?case by simp
next
  case (2 attrs s nm s2 v s5)
  from parseName_less [OF 2(3)] skipWhitespace_le [of s]
  have a: "length (rest s2) < length (rest s)" by simp
  from parseAttributeValue_le [OF 2(5)] skipWhitespace_le [of "advance (skipWhitespace s2)"]
    advance_le [of "skipWhitespace s2"] skipWhitespace_le [of s2]
  have "length (rest s5) \<le> length (rest s2)" by simp
  with a show ?case by simp
qed

declare attributesLoop.simps [simp del]

definition parseAttributes :: "pstate \<Rightarrow> (jstring \<times> jstring) list result" where
  "parseAttributes s = attributesLoop [] s"

lemma attributesLoop_le:
  "attributesLoop a s = Ok a' s' \<Longrightarrow> length (rest s') \<le> length (rest s)"
proof (induction a s rule: attributesLoop.induct)
  case (1 attrs s)
  show ?case
  proof (cases "rest s \<noteq> []")
    case False
    with 1 show ?thesis by (simp add: attributesLoop.simps [of attrs s])
  next
    case ne: True
    show ?thesis
    proof (cases "current (skipWhitespace s) = js ''>'' \<or> current (skipWhitespace s) = js ''/''
               \<or> current (skipWhitespace s) = js ''?''")
      case True
      with ne "1.prems" have "s' = skipWhitespace s"
        by (auto simp: attributesLoop.simps [of attrs s])
      then show ?thesis by (simp add: skipWhitespace_le)
    next
      case False
      with ne "1.prems" obtain nm s2 v s5 where
        n: "parseName (skipWhitespace s) = Ok nm s2" and
        eq: "\<not> current (skipWhitespace s2) \<noteq> js ''=''" and
        v: "parseAttributeValue (skipWhitespace (advance (skipWhitespace s2))) = Ok v s5" and
        r: "attributesLoop (AList.update nm v attrs) s5 = Ok a' s'"
        by (auto simp: attributesLoop.simps [of attrs s] split: result.splits if_splits)
      from "1.IH" [OF ne False n eq v r] have "length (rest s') \<le> length (rest s5)" .
      moreover from parseAttributeValue_le [OF v] skipWhitespace_le [of "advance (skipWhitespace s2)"]
        advance_le [of "skipWhitespace s2"] skipWhitespace_le [of s2]
      have "length (rest s5) \<le> length (rest s2)" by simp
      moreover from parseName_less [OF n] skipWhitespace_le [of s]
      have "length (rest s2) < length (rest s)" by simp
      ultimately show ?thesis by simp
    qed
  qed
qed

subsection \<open>Elements\<close>

definition parseEndTag :: "jstring \<Rightarrow> pstate \<Rightarrow> unit result" where
  "parseEndTag expectedName s =
     (if current s = js ''<'' \<and> peek 1 s = js ''/''
      then (case parseName (advance (advance s)) of
              Throw m e \<Rightarrow> Throw m e
            | Ok endTagName s1 \<Rightarrow>
                if endTagName \<noteq> expectedName
                then Throw (js ''End tag '' @ [0x27] @ endTagName @ [0x27]
                            @ js '' does not match start tag '' @ [0x27] @ expectedName @ [0x27]) s1
                else if current (skipWhitespace s1) \<noteq> js ''>''
                then Throw (js ''Expected '' @ [0x27] @ js ''>'' @ [0x27] @ js '' in end tag'')
                           (skipWhitespace s1)
                else Ok () (advance (skipWhitespace s1)))
      else Ok () s)"

definition buildElementNode ::
  "jstring \<Rightarrow> (jstring \<times> jstring) list \<Rightarrow> XmlNode list \<Rightarrow> jstring \<Rightarrow> XmlNode" where
  "buildElementNode nm attrs children text0 =
     XmlNode nm attrs children (if trim text0 \<noteq> [] \<and> children = [] then Some (trim text0) else None) None"

definition textNode :: "jstring \<Rightarrow> XmlNode" where
  "textNode text0 = XmlNode (js ''#text'') [] [] (Some (trim text0)) None"

function parseElement :: "pstate \<Rightarrow> XmlNode result"
  and parseElementContent :: "jstring \<Rightarrow> (jstring \<times> jstring) list \<Rightarrow> pstate \<Rightarrow> XmlNode result"
  and contentLoop :: "XmlNode list \<Rightarrow> jstring \<Rightarrow> pstate \<Rightarrow> (XmlNode list \<times> jstring) result"
where
  "parseElement s =
     (if current s \<noteq> js ''<''
      then Throw (js ''Expected '' @ [0x27] @ js ''<'' @ [0x27] @ js '' but found ''
                  @ [0x27] @ current s @ [0x27]) s
      else if current (advance s) = js ''/''
      then Throw (js ''Unexpected end tag'') (advance s)
      else (case parseName (advance s) of
              Throw m e \<Rightarrow> Throw m e
            | Ok nm s2 \<Rightarrow>
               (case parseAttributes s2 of
                  Throw m e \<Rightarrow> Throw m e
                | Ok attrs s3 \<Rightarrow>
                    if current (skipWhitespace s3) = js ''/'' \<and> peek 1 (skipWhitespace s3) = js ''>''
                    then Ok (XmlNode nm attrs [] None None) (advance (advance (skipWhitespace s3)))
                    else if current (skipWhitespace s3) \<noteq> js ''>''
                    then Throw (js ''Expected '' @ [0x27] @ js ''>'' @ [0x27] @ js '' but found ''
                                @ [0x27] @ current (skipWhitespace s3) @ [0x27]) (skipWhitespace s3)
                    else parseElementContent nm attrs (advance (skipWhitespace s3)))))"
| "parseElementContent nm attrs s =
     (case contentLoop [] [] s of
        Throw m e \<Rightarrow> Throw m e
      | Ok (children, text0) s1 \<Rightarrow>
          (case parseEndTag nm s1 of
             Throw m e \<Rightarrow> Throw m e
           | Ok u s2 \<Rightarrow> Ok (buildElementNode nm attrs children text0) s2))"
| "contentLoop children text0 s =
     (if rest s \<noteq> []
      then (if current (skipWhitespace s) = js ''<''
            then (if peek 1 (skipWhitespace s) = js ''/''
                  then Ok (children, text0) (skipWhitespace s)
                  else (case parseElement (skipWhitespace s) of
                          Throw m e \<Rightarrow> Throw m e
                        | Ok child s2 \<Rightarrow>
                            contentLoop
                              ((if trim text0 \<noteq> [] then children @ [textNode text0] else children) @ [child])
                              (if trim text0 \<noteq> [] then [] else text0) s2))
            else contentLoop children (text0 @ current (skipWhitespace s)) (advance (skipWhitespace s)))
      else Ok (children, text0) s)"
  by pat_completeness auto


lemma parseEndTag_le:
  assumes "parseEndTag nm s = Ok u s'"
  shows "length (rest s') \<le> length (rest s)"
proof (cases "current s = js ''<'' \<and> peek 1 s = js ''/''")
  case False
  with assms show ?thesis by (auto simp: parseEndTag_def)
next
  case True
  with assms obtain en s1 where n: "parseName (advance (advance s)) = Ok en s1"
    and s': "s' = advance (skipWhitespace s1)"
    by (auto simp: parseEndTag_def split: result.splits if_splits)
  from parseName_less [OF n] advance_le [of "advance s"] advance_le [of s]
    skipWhitespace_le [of s1] advance_le [of "skipWhitespace s1"] s'
  show ?thesis by simp
qed

lemma current_lt_nonempty: "current s = js ''<'' \<Longrightarrow> rest s \<noteq> []"
  by (auto simp: current_def js_def)

lemma parse_decreases_partial:
  shows "parseElement_parseElementContent_contentLoop_dom (Inl s) \<Longrightarrow>
      parseElement s = Ok n s' \<Longrightarrow> length (rest s') < length (rest s)"
  and "parseElement_parseElementContent_contentLoop_dom (Inr (Inl (nm, attrs, s1))) \<Longrightarrow>
      parseElementContent nm attrs s1 = Ok n1 s1' \<Longrightarrow> length (rest s1') \<le> length (rest s1)"
  and "parseElement_parseElementContent_contentLoop_dom (Inr (Inr (children, text0, s2))) \<Longrightarrow>
      contentLoop children text0 s2 = Ok r s2' \<Longrightarrow> length (rest s2') \<le> length (rest s2)"
proof (induction s and nm attrs s1 and children text0 s2 arbitrary: n s' and n1 s1' and r s2'
    rule: parseElement_parseElementContent_contentLoop.pinduct)
  case (1 s)
  from "1.prems" "1.hyps" have lt: "current s = js ''<''"
    by (auto simp: parseElement.psimps split: if_splits)
  then have ne: "rest s \<noteq> []" by (rule current_lt_nonempty)
  from "1.prems" "1.hyps" lt obtain nm s2 attrs s3 where
    ns: "current (advance s) \<noteq> js ''/''" and
    n: "parseName (advance s) = Ok nm s2" and a: "parseAttributes s2 = Ok attrs s3"
    by (auto simp: parseElement.psimps split: if_splits result.splits)
  have le3: "length (rest (skipWhitespace s3)) < length (rest s)"
    using parseName_less [OF n] attributesLoop_le [OF a [unfolded parseAttributes_def]]
      advance_le [of s] skipWhitespace_le [of s3] by simp
  show ?case
  proof (cases "current (skipWhitespace s3) = js ''/'' \<and> peek 1 (skipWhitespace s3) = js ''>''")
    case True
    with "1.prems" "1.hyps" lt ns n a have "s' = advance (advance (skipWhitespace s3))"
      by (auto simp: parseElement.psimps)
    with le3 advance_le [of "skipWhitespace s3"] advance_le [of "advance (skipWhitespace s3)"]
    show ?thesis by simp
  next
    case False
    with "1.prems" "1.hyps" lt ns n a have gt: "\<not> current (skipWhitespace s3) \<noteq> js ''>''"
      and c: "parseElementContent nm attrs (advance (skipWhitespace s3)) = Ok n s'"
      by (auto simp: parseElement.psimps split: if_splits)
    from "1.IH" [OF _ ns n a False gt c] lt
    have "length (rest s') \<le> length (rest (advance (skipWhitespace s3)))" by simp
    with le3 advance_le [of "skipWhitespace s3"] show ?thesis by simp
  qed
next
  case (2 nm attrs s)
  from "2.prems" "2.hyps" obtain ch tx s1 u where
    l: "contentLoop [] [] s = Ok (ch, tx) s1" and e: "parseEndTag nm s1 = Ok u s1'"
    by (auto simp: parseElementContent.psimps split: result.splits prod.splits)
  from "2.IH" [OF l] parseEndTag_le [OF e] show ?case by simp
next
  case (3 children text0 s)
  show ?case
  proof (cases "rest s \<noteq> []")
    case False
    with "3.prems" "3.hyps" show ?thesis by (simp add: contentLoop.psimps)
  next
    case ne: True
    show ?thesis
    proof (cases "current (skipWhitespace s) = js ''<''")
      case notlt: False
      with ne "3.prems" "3.hyps" have
        "contentLoop children (text0 @ current (skipWhitespace s)) (advance (skipWhitespace s)) = Ok r s2'"
        by (simp add: contentLoop.psimps)
      from "3.IH"(3) [OF ne notlt this] advance_le [of "skipWhitespace s"] skipWhitespace_le [of s]
      show ?thesis by simp
    next
      case lt: True
      show ?thesis
      proof (cases "peek 1 (skipWhitespace s) = js ''/''")
        case True
        with ne lt "3.prems" "3.hyps" have "s2' = skipWhitespace s"
          by (simp add: contentLoop.psimps)
        then show ?thesis by (simp add: skipWhitespace_le)
      next
        case False
        with ne lt "3.prems" "3.hyps" obtain child s3 where
          p: "parseElement (skipWhitespace s) = Ok child s3" and
          c: "contentLoop ((if trim text0 \<noteq> [] then children @ [textNode text0] else children) @ [child])
                (if trim text0 \<noteq> [] then [] else text0) s3 = Ok r s2'"
          by (auto simp: contentLoop.psimps split: result.splits)
        from "3.IH"(1) [OF ne lt False p] "3.IH"(2) [OF ne lt False p c] skipWhitespace_le [of s]
        show ?thesis by simp
      qed
    qed
  qed
qed

termination parseElement
proof (relation "measures [\<lambda>x. case x of Inl s \<Rightarrow> length (rest s)
                                 | Inr (Inl (nm, attrs, s)) \<Rightarrow> length (rest s)
                                 | Inr (Inr (ch, tx, s)) \<Rightarrow> length (rest s),
                           \<lambda>x. case x of Inl s \<Rightarrow> 0 | Inr (Inl z) \<Rightarrow> 2 | Inr (Inr z) \<Rightarrow> Suc 0]", goal_cases)
  case 1
  show ?case by simp
next
  case (2 s nm s2 attrs s3)
  have "rest s \<noteq> []" using 2(1) by (simp add: current_lt_nonempty)
  with parseName_less [OF 2(3)] attributesLoop_le [OF 2(4) [unfolded parseAttributes_def]]
      advance_le [of s] skipWhitespace_le [of s3] advance_le [of "skipWhitespace s3"]
  show ?case by simp
next
  case 3
  show ?case by simp
next
  case (4 children text0 s)
  then show ?case using skipWhitespace_le [of s] by auto
next
  case (5 children text0 s child s2)
  from parse_decreases_partial(1) [OF 5(5) 5(4)] skipWhitespace_le [of s]
  show ?case by simp
next
  case (6 children text0 s)
  show ?case
  proof (cases "rest (skipWhitespace s) = []")
    case True
    with 6 show ?thesis by (simp add: advance_def)
  next
    case False
    from advance_less [OF False] skipWhitespace_le [of s] show ?thesis by simp
  qed
qed

declare parseElement.simps [simp del] parseElementContent.simps [simp del] contentLoop.simps [simp del]

subsection \<open>Prolog and entry point\<close>

function declarationLoop :: "pstate \<Rightarrow> pstate" where
  "declarationLoop s =
     (if rest s \<noteq> [] \<and> \<not> (current s = js ''?'' \<and> peek 1 s = js ''>'')
      then declarationLoop (advance s) else s)"
  by pat_completeness auto
termination
  by (relation "measure (\<lambda>s. length (rest s))") (auto simp: advance_less)

declare declarationLoop.simps [simp del]

definition skipDeclaration :: "pstate \<Rightarrow> pstate" where
  "skipDeclaration s =
     (let s1 = declarationLoop s;
          s2 = (if current s1 = js ''?'' then advance s1 else s1)
      in if current s2 = js ''>'' then advance s2 else s2)"

text \<open>\<open>position += n\<close>: the offset moves, line and column are left as they are.\<close>

definition jump :: "nat \<Rightarrow> pstate \<Rightarrow> pstate" where
  "jump n s = s\<lparr>rest := drop n (rest s), position := position s + n\<rparr>"

function xmlCommentLoop :: "pstate \<Rightarrow> pstate" where
  "xmlCommentLoop s =
     (if 2 < length (rest s)
      then (if take 3 (rest s) = js ''-->'' then jump 3 s else xmlCommentLoop (advance s))
      else s)"
  by pat_completeness auto
termination
  by (relation "measure (\<lambda>s. length (rest s))") (auto intro: advance_less)

declare xmlCommentLoop.simps [simp del]

definition skipXmlComment :: "pstate \<Rightarrow> pstate" where
  "skipXmlComment s = xmlCommentLoop (jump 4 s)"

function doctypeLoop :: "int \<Rightarrow> pstate \<Rightarrow> pstate" where
  "doctypeLoop depth s =
     (if rest s \<noteq> []
      then (if current s = js ''<'' then doctypeLoop (depth + 1) (advance s)
            else if current s = js ''>''
            then (if depth - 1 = 0 then advance s else doctypeLoop (depth - 1) (advance s))
            else doctypeLoop depth (advance s))
      else s)"
  by pat_completeness auto
termination
  by (relation "measure (\<lambda>(d, s). length (rest s))") (auto simp: advance_less)

declare doctypeLoop.simps [simp del]

definition skipDoctype :: "pstate \<Rightarrow> pstate" where
  "skipDoctype s = doctypeLoop 0 s"

definition skipComment :: "pstate \<Rightarrow> pstate" where
  "skipComment s =
     (if peek 4 s = js ''<!--'' then skipXmlComment s
      else if peek 9 s = js ''<!DOCTYPE'' then skipDoctype s
      else s)"

function skipProcessingInstruction :: "pstate \<Rightarrow> pstate" where
  "skipProcessingInstruction s =
     (if 1 < length (rest s)
      then (if current s = js ''?'' \<and> peek 1 s = js ''>'' then advance (advance s)
            else skipProcessingInstruction (advance s))
      else s)"
  by pat_completeness auto
termination
  by (relation "measure (\<lambda>s. length (rest s))") (auto intro: advance_less)

declare skipProcessingInstruction.simps [simp del]

text \<open>
  The loop of \<open>parse\<close> over comments, DOCTYPE and processing instructions. It is the one
  loop of the parser that need not end, so it returns an option: \<open>None\<close> is a run that
  never leaves the loop.
\<close>

partial_function (option) prologLoop :: "pstate \<Rightarrow> pstate option" where
  "prologLoop s =
     (if rest s \<noteq> [] \<and> current s = js ''<''
      then (if peek 1 s = js ''!'' then prologLoop (skipWhitespace (skipComment s))
            else if peek 1 s = js ''?'' then prologLoop (skipWhitespace (skipProcessingInstruction s))
            else Some s)
      else Some s)"

declare prologLoop.simps [code]

definition initial :: "jstring \<Rightarrow> pstate" where
  "initial xmlString = \<lparr>rest = xmlString, position = 0, line = 1, column = 1\<rparr>"

text \<open>The body of the \<open>try\<close> block of \<open>parse\<close>.\<close>

definition parseBody :: "jstring \<Rightarrow> XmlNode result option" where
  "parseBody xmlString =
     (let s1 = skipWhitespace (initial xmlString);
          s2 = (if peek 5 s1 = js ''<?xml'' then skipWhitespace (skipDeclaration s1) else s1)
      in case prologLoop s2 of
           None \<Rightarrow> None
         | Some s3 \<Rightarrow> Some (parseElement s3))"

definition parseError :: "jstring \<Rightarrow> pstate \<Rightarrow> ValidationError" where
  "parseError m e =
     \<lparr>err_line = line e, err_column = column e, err_message = m, err_code = js ''PARSE_ERROR''\<rparr>"

definition parse :: "jstring \<Rightarrow> (XmlNode option \<times> ValidationError list) option" where
  "parse xmlString =
     (case parseBody xmlString of
        None \<Rightarrow> None
      | Some (Ok node s) \<Rightarrow> Some (Some node, [])
      | Some (Throw m e) \<Rightarrow> Some (None, [parseError m e]))"

section \<open>Schema model (types.ts)\<close>

text \<open>
  A number of the host language: \<open>NaN\<close>, the two infinities, or a finite value (held as
  the rational it denotes; the order on these rationals is the order on the doubles).
\<close>

datatype jsnum = NaN | Fin rat | PosInf | NegInf

fun numLess :: "jsnum \<Rightarrow> jsnum \<Rightarrow> bool" where
  "numLess (Fin a) (Fin b) = (a < b)"
| "numLess (Fin a) PosInf = True"
| "numLess NegInf (Fin b) = True"
| "numLess NegInf PosInf = True"
| "numLess _ _ = False"

definition numOfNat :: "nat \<Rightarrow> jsnum" where
  "numOfNat n = Fin (of_nat n)"

definition numOfParseInt :: "int option \<Rightarrow> jsnum" where
  "numOfParseInt r = (case r of None \<Rightarrow> NaN | Some i \<Rightarrow> Fin (of_int i))"

datatype facetValue = StrVal jstring | NumVal jsnum

record XsdRestriction =
  r_type :: jstring
  r_value :: facetValue

record XsdAttribute =
  a_name :: jstring
  a_type :: jstring
  a_use :: jstring
  a_defaultValue :: "jstring option"
  a_fixedValue :: "jstring option"

datatype maxOccurs = Unbounded | Bounded jsnum

datatype XsdElement = XsdElement
  (e_name: jstring)
  (e_type: jstring)
  (e_minOccurs: jsnum)
  (e_maxOccurs: maxOccurs)
  (e_attributes: "XsdAttribute list")
  (e_children: "XsdElement list")
  (e_namespace: "jstring option")
  (e_restrictions: "XsdRestriction list option")

record XsdComplexType =
  ct_name :: jstring
  ct_elements :: "XsdElement list"
  ct_attributes :: "XsdAttribute list"

record XsdSimpleType =
  st_name :: jstring
  st_baseType :: jstring
  st_restrictions :: "XsdRestriction list"

text \<open>
  The three mappings of a schema and its namespaces are association lists, read with
  \<open>map_of\<close> and written with \<open>AList.update\<close> (assignment to a property: an existing key keeps
  its place, a new key goes last). As for the attributes of a node, only own properties
  are modelled.
\<close>

record XsdSchema =
  targetNamespace :: "jstring option"
  elements :: "(jstring \<times> XsdElement) list"
  complexTypes :: "(jstring \<times> XsdComplexType) list"
  simpleTypes :: "(jstring \<times> XsdSimpleType) list"
  namespaces :: "(jstring \<times> jstring) list"

section \<open>Functions of the host platform\<close>

text \<open>
  The validator and the schema builder call four functions of the platform; the model
  takes them as parameters: \<open>Number\<close> on a string, \<open>String\<close> on a number,
  \<open>new RegExp\<close> on a pattern (\<open>None\<close> when it throws a \<open>SyntaxError\<close>) and \<open>test\<close> of a
  compiled expression on a string.
\<close>

record 'r host =
  toNumber :: "jstring \<Rightarrow> jsnum"
  numberToString :: "jsnum \<Rightarrow> jstring"
  regExpCompile :: "jstring \<Rightarrow> 'r option"
  regExpTest :: "'r \<Rightarrow> jstring \<Rightarrow> bool"

section \<open>The schema builder (xsd-parser.ts)\<close>

text \<open>\<open>a || b\<close> on an optional string: \<open>undefined\<close> and the empty string are falsy.\<close>

definition orElse :: "jstring option \<Rightarrow> jstring \<Rightarrow> jstring" where
  "orElse v d = (case v of None \<Rightarrow> d | Some s \<Rightarrow> if s = [] then d else s)"

definition getLocalName :: "jstring \<Rightarrow> jstring" where
  "getLocalName nm = (if 0x3A \<in> set nm then drop 1 (dropWhile (\<lambda>c. c \<noteq> 0x3A) nm) else nm)"

definition endsWith :: "jstring \<Rightarrow> jstring \<Rightarrow> bool" where
  "endsWith str suf \<longleftrightarrow> length suf \<le> length str \<and> drop (length str - length suf) str = suf"

definition parseAttribute :: "XmlNode \<Rightarrow> XsdAttribute" where
  "parseAttribute attributeNode =
     \<lparr>a_name = orElse (map_of (node_attributes attributeNode) (js ''name'')) [],
      a_type = orElse (map_of (node_attributes attributeNode) (js ''type'')) (js ''string''),
      a_use = orElse (map_of (node_attributes attributeNode) (js ''use'')) (js ''optional''),
      a_defaultValue = map_of (node_attributes attributeNode) (js ''default''),
      a_fixedValue = map_of (node_attributes attributeNode) (js ''fixed'')\<rparr>"

definition restrictionOf :: "'r host \<Rightarrow> XmlNode \<Rightarrow> XsdRestriction list" where
  "restrictionOf h restrictionChild =
     (case map_of (node_attributes restrictionChild) (js ''value'') of
        None \<Rightarrow> []
      | Some v \<Rightarrow>
          [\<lparr>r_type = getLocalName (node_name restrictionChild),
            r_value = (if toNumber h v = NaN then StrVal v else NumVal (toNumber h v))\<rparr>])"

definition parseSimpleType :: "'r host \<Rightarrow> XmlNode \<Rightarrow> XsdSimpleType" where
  "parseSimpleType h simpleTypeNode =
     foldl (\<lambda>simpleType child.
              if getLocalName (node_name child) = js ''restriction''
              then simpleType
                     \<lparr>st_baseType := orElse (map_of (node_attributes child) (js ''base'')) (js ''string''),
                      st_restrictions := st_restrictions simpleType
                         @ concat (map (restrictionOf h) (node_children child))\<rparr>
              else simpleType)
       \<lparr>st_name = orElse (map_of (node_attributes simpleTypeNode) (js ''name'')) [],
        st_baseType = js ''string'', st_restrictions = []\<rparr>
       (node_children simpleTypeNode)"

lemma size_child: "x \<in> set (node_children n) \<Longrightarrow> size x < size n"
  by (cases n) (auto simp: less_Suc_eq_le dest: size_list_estimation' [where f = size and y = "size x", OF _ order_refl])

function parseElementXsd :: "'r host \<Rightarrow> XmlNode \<Rightarrow> XsdElement"
  and parseComplexType :: "'r host \<Rightarrow> XmlNode \<Rightarrow> XsdComplexType"
where
  "parseElementXsd h elementNode =
     foldl (\<lambda>element child.
              if getLocalName (node_name child) = js ''complexType''
              then (let complexType = parseComplexType h child in
                    XsdElement (e_name element) (js ''#inline-'' @ e_name element)
                      (e_minOccurs element) (e_maxOccurs element) (e_attributes element)
                      (e_children element) (e_namespace element) (e_restrictions element))
              else if getLocalName (node_name child) = js ''simpleType''
              then XsdElement (e_name element) (js ''#inline-'' @ e_name element)
                      (e_minOccurs element) (e_maxOccurs element) (e_attributes element)
                      (e_children element) (e_namespace element)
                      (Some (st_restrictions (parseSimpleType h child)))
              else element)
       (XsdElement
          (orElse (map_of (node_attributes elementNode) (js ''name'')) [])
          (orElse (map_of (node_attributes elementNode) (js ''type'')) (js ''string''))
          (numOfParseInt (parseInt (orElse (map_of (node_attributes elementNode) (js ''minOccurs'')) (js ''1'')) None))
          (if map_of (node_attributes elementNode) (js ''maxOccurs'') = Some (js ''unbounded'')
           then Unbounded
           else Bounded (numOfParseInt
                  (parseInt (orElse (map_of (node_attributes elementNode) (js ''maxOccurs'')) (js ''1'')) None)))
          [] [] (node_namespace elementNode) None)
       (node_children elementNode)"
| "parseComplexType h complexTypeNode =
     foldl (\<lambda>complexType child.
              if getLocalName (node_name child) = js ''sequence''
                 \<or> getLocalName (node_name child) = js ''choice''
                 \<or> getLocalName (node_name child) = js ''all''
              then complexType
                     \<lparr>ct_elements := ct_elements complexType
                        @ map (parseElementXsd h)
                            (filter (\<lambda>sequenceChild. getLocalName (node_name sequenceChild) = js ''element'')
                               (node_children child))\<rparr>
              else if getLocalName (node_name child) = js ''attribute''
              then complexType\<lparr>ct_attributes := ct_attributes complexType @ [parseAttribute child]\<rparr>
              else complexType)
       \<lparr>ct_name = orElse (map_of (node_attributes complexTypeNode) (js ''name'')) [],
        ct_elements = [], ct_attributes = []\<rparr>
       (node_children complexTypeNode)"

  by pat_completeness auto
termination parseElementXsd
  by (relation "measure (\<lambda>x. case x of Inl (h, n) \<Rightarrow> size n | Inr (h, n) \<Rightarrow> size n)")
     (auto dest!: size_child)

definition namespaceStep :: "(jstring \<times> jstring) list \<Rightarrow> jstring \<times> jstring \<Rightarrow> (jstring \<times> jstring) list" where
  "namespaceStep ns kv =
     (if startsWith (fst kv) (js ''xmlns:'') then AList.update (drop 6 (fst kv)) (snd kv) ns
      else if fst kv = js ''xmlns'' then AList.update [] (snd kv) ns
      else ns)"

definition schemaChildStep :: "'r host \<Rightarrow> XsdSchema \<Rightarrow> XmlNode \<Rightarrow> XsdSchema" where
  "schemaChildStep h schema child =
     (if getLocalName (node_name child) = js ''element''
      then schema\<lparr>elements :=
             AList.update (e_name (parseElementXsd h child)) (parseElementXsd h child) (elements schema)\<rparr>
      else if getLocalName (node_name child) = js ''complexType''
      then schema\<lparr>complexTypes :=
             AList.update (ct_name (parseComplexType h child)) (parseComplexType h child)
               (complexTypes schema)\<rparr>
      else if getLocalName (node_name child) = js ''simpleType''
      then schema\<lparr>simpleTypes :=
             AList.update (st_name (parseSimpleType h child)) (parseSimpleType h child)
               (simpleTypes schema)\<rparr>
      else schema)"

text \<open>\<open>buildSchema\<close> returns the schema, or the message of the \<open>Error\<close> it throws.\<close>

definition buildSchema :: "'r host \<Rightarrow> XmlNode \<Rightarrow> jstring + XsdSchema" where
  "buildSchema h schemaNode =
     (if node_name schemaNode \<noteq> js ''schema'' \<and> \<not> endsWith (node_name schemaNode) (js '':schema'')
      then Inl (js ''Root element must be schema'')
      else Inr (foldl (schemaChildStep h)
                  \<lparr>targetNamespace = map_of (node_attributes schemaNode) (js ''targetNamespace''),
                   elements = [], complexTypes = [], simpleTypes = [],
                   namespaces = foldl namespaceStep [] (node_attributes schemaNode)\<rparr>
                  (node_children schemaNode)))"

definition schemaError :: "jstring \<Rightarrow> ValidationError" where
  "schemaError m = \<lparr>err_line = 1, err_column = 1, err_message = m, err_code = js ''SCHEMA_ERROR''\<rparr>"

definition parseSchema :: "'r host \<Rightarrow> jstring \<Rightarrow> (XsdSchema option \<times> ValidationError list) option" where
  "parseSchema h xsdString =
     (case parse xsdString of
        None \<Rightarrow> None
      | Some (node, errors) \<Rightarrow>
          if errors \<noteq> [] \<or> node = None then Some (None, errors)
          else (case buildSchema h (the node) of
                  Inl m \<Rightarrow> Some (None, errors @ [schemaError m])
                | Inr schema \<Rightarrow> Some (Some schema, [])))"

section \<open>A host for the examples\<close>

text \<open>
  The platform functions on a fragment, for evaluating examples: \<open>Number\<close> on strings of
  decimal digits with an optional sign, \<open>String\<close> on integers, \<open>NaN\<close> and the infinities,
  and regular expressions that are sequences of literal characters and classes of
  characters and ranges \<open>[a-z0-9]\<close>, each with an optional count \<open>{n}\<close>. A class that is
  never closed is a \<open>SyntaxError\<close>. Outside the fragment the results are placeholders
  (\<open>NaN\<close>, the empty string, \<open>Outside\<close>), and no example is evaluated there.
\<close>

fun showDigits :: "nat \<Rightarrow> nat \<Rightarrow> jstring" where
  "showDigits 0 n = []"
| "showDigits (Suc fuel) n =
     (if n < 10 then [of_nat (48 + n)] else showDigits fuel (n div 10) @ [of_nat (48 + n mod 10)])"

text \<open>The decimal digits of a natural number (an array length in a template literal).\<close>

definition showNat :: "nat \<Rightarrow> jstring" where
  "showNat n = showDigits (Suc n) n"

definition fragmentToNumber :: "jstring \<Rightarrow> jsnum" where
  "fragmentToNumber str =
     (let negative = (take 1 str = js ''-'');
          ds = (if take 1 str = js ''-'' \<or> take 1 str = js ''+'' then drop 1 str else str)
      in if ds \<noteq> [] \<and> list_all isDigit ds
         then Fin (if negative then - of_nat (digitsValue 10 ds) else of_nat (digitsValue 10 ds))
         else NaN)"

definition fragmentNumberToString :: "jsnum \<Rightarrow> jstring" where
  "fragmentNumberToString n =
     (case n of
        NaN \<Rightarrow> js ''NaN''
      | PosInf \<Rightarrow> js ''Infinity''
      | NegInf \<Rightarrow> js ''-Infinity''
      | Fin q \<Rightarrow>
          if snd (quotient_of q) = 1
          then (if fst (quotient_of q) < 0 then js ''-'' @ showNat (nat (- fst (quotient_of q)))
                else showNat (nat (fst (quotient_of q))))
          else [])"

datatype rxItem = RxItem "(jchar \<times> jchar) list" nat

datatype rx = Fragment "rxItem list" | Outside

definition isRxMeta :: "jchar \<Rightarrow> bool" where
  "isRxMeta c \<longleftrightarrow>
     c \<in> set [0x5C, 0x5E, 0x24, 0x2E, 0x2A, 0x2B, 0x3F, 0x28, 0x29, 0x5B, 0x5D, 0x7B, 0x7D, 0x7C]"

text \<open>The body of a class, up to its closing bracket: single characters and ranges.\<close>

fun rxClass :: "jstring \<Rightarrow> ((jchar \<times> jchar) list) option" where
  "rxClass [] = Some []"
| "rxClass (a # b # c # cs) =
     (if a = 0x5C \<or> a = 0x5E \<or> a = 0x5B \<or> a = 0x2D then None
      else if b = 0x2D
      then (if c = 0x5C \<or> c = 0x5E \<or> c = 0x5B \<or> c = 0x2D \<or> c < a then None
            else map_option ((#) (a, c)) (rxClass cs))
      else map_option ((#) (a, a)) (rxClass (b # c # cs)))"
| "rxClass (a # cs) =
     (if a = 0x5C \<or> a = 0x5E \<or> a = 0x5B \<or> a = 0x2D then None
      else map_option ((#) (a, a)) (rxClass cs))"

text \<open>An optional count \<open>{n}\<close> after an atom: the count and the rest of the pattern.\<close>

definition rxCount :: "jstring \<Rightarrow> (nat \<times> jstring) option" where
  "rxCount p =
     (if take 1 p = js ''{''
      then (let ds = takeWhile isDigit (drop 1 p); r = dropWhile isDigit (drop 1 p)
            in if ds \<noteq> [] \<and> take 1 r = js ''}'' then Some (digitsValue 10 ds, drop 1 r) else None)
      else Some (1, p))"

lemma rxCount_le: "rxCount p = Some (n, r) \<Longrightarrow> length r \<le> length p"
proof -
  have "length (dropWhile isDigit (drop 1 p)) \<le> length p"
    using length_dropWhile_le [of isDigit "drop 1 p"] by simp
  then show "rxCount p = Some (n, r) \<Longrightarrow> length r \<le> length p"
    by (auto simp: rxCount_def Let_def split: if_splits)
qed

datatype rxParse = RxSyntaxError | RxOutside | RxItems "rxItem list"

function rxParseItems :: "jstring \<Rightarrow> rxParse" where
  "rxParseItems p =
     (case p of
        [] \<Rightarrow> RxItems []
      | c # cs \<Rightarrow>
          if c = 0x5B
          then (if 0x5D \<notin> set cs then RxSyntaxError
                else (case rxClass (takeWhile (\<lambda>x. x \<noteq> 0x5D) cs) of
                        None \<Rightarrow> RxOutside
                      | Some ranges \<Rightarrow>
                          (case rxCount (drop 1 (dropWhile (\<lambda>x. x \<noteq> 0x5D) cs)) of
                             None \<Rightarrow> RxOutside
                           | Some (n, r) \<Rightarrow>
                               (case rxParseItems r of
                                  RxItems items \<Rightarrow> RxItems (RxItem ranges n # items)
                                | other \<Rightarrow> other))))
          else if isRxMeta c then RxOutside
          else (case rxCount cs of
                  None \<Rightarrow> RxOutside
                | Some (n, r) \<Rightarrow>
                    (case rxParseItems r of
                       RxItems items \<Rightarrow> RxItems (RxItem [(c, c)] n # items)
                     | other \<Rightarrow> other)))"
  by pat_completeness auto

termination
proof (relation "measure length", goal_cases)
  case 1
  show ?case by simp
next
  case (2 p c cs ranges x n r)
  from 2 have "rxCount (drop 1 (dropWhile (\<lambda>x. x \<noteq> 0x5D) cs)) = Some (n, r)"
    by simp
  from rxCount_le [OF this] have "length r \<le> length (dropWhile (\<lambda>x. x \<noteq> 0x5D) cs)"
    by simp
  also have "\<dots> \<le> length cs"
    by (rule length_dropWhile_le)
  finally show ?case using 2 by simp
next
  case (3 p c cs x n r)
  from 3 have "rxCount cs = Some (n, r)" by simp
  from rxCount_le [OF this] 3 show ?case by simp
qed

declare rxParseItems.simps [simp del]

definition inRanges :: "(jchar \<times> jchar) list \<Rightarrow> jchar \<Rightarrow> bool" where
  "inRanges ranges c = list_ex (\<lambda>r. fst r \<le> c \<and> c \<le> snd r) ranges"

definition rxExpand :: "rxItem list \<Rightarrow> (jchar \<times> jchar) list list" where
  "rxExpand items = concat (map (\<lambda>i. case i of RxItem ranges n \<Rightarrow> replicate n ranges) items)"

definition matchHere :: "(jchar \<times> jchar) list list \<Rightarrow> jstring \<Rightarrow> bool" where
  "matchHere cls w \<longleftrightarrow> length cls \<le> length w \<and> list_all2 inRanges cls (take (length cls) w)"

text \<open>\<open>test\<close> searches: the expression may match anywhere in the string.\<close>

definition fragmentTest :: "rx \<Rightarrow> jstring \<Rightarrow> bool" where
  "fragmentTest r v =
     (case r of
        Fragment items \<Rightarrow> list_ex (\<lambda>k. matchHere (rxExpand items) (drop k v)) [0..<Suc (length v)]
      | Outside \<Rightarrow> False)"

definition fragmentCompile :: "jstring \<Rightarrow> rx option" where
  "fragmentCompile p =
     (case rxParseItems p of
        RxSyntaxError \<Rightarrow> None
      | RxOutside \<Rightarrow> Some Outside
      | RxItems items \<Rightarrow> Some (Fragment items))"

definition fragmentHost :: "rx host" where
  "fragmentHost =
     \<lparr>toNumber = fragmentToNumber, numberToString = fragmentNumberToString,
      regExpCompile = fragmentCompile, regExpTest = fragmentTest\<rparr>"


section \<open>The validator (xml-validator.ts)\<close>

text \<open>
  \<open>validate\<close> has no \<open>try\<close>: an error thrown below it leaves the call. The only one is the
  \<open>SyntaxError\<close> of \<open>new RegExp\<close>. The list \<open>this.errors\<close> is passed along and returned.
\<close>

datatype exn = SyntaxError

definition quoted :: "jstring \<Rightarrow> jstring" where
  "quoted s = [0x27] @ s @ [0x27]"

definition addError ::
  "nat \<Rightarrow> nat \<Rightarrow> jstring \<Rightarrow> jstring \<Rightarrow> ValidationError list \<Rightarrow> ValidationError list" where
  "addError lno cno message code errors =
     errors @ [\<lparr>err_line = lno, err_column = cno, err_message = message, err_code = code\<rparr>]"

text \<open>A value is truthy when it is defined and not the empty string.\<close>

definition truthy :: "jstring option \<Rightarrow> bool" where
  "truthy v = (case v of None \<Rightarrow> False | Some s \<Rightarrow> s \<noteq> [])"

subsection \<open>Lexical forms of the built-in types\<close>

definition allDigits :: "jstring \<Rightarrow> bool" where
  "allDigits w \<longleftrightarrow> w \<noteq> [] \<and> list_all isDigit w"

definition dropMinus :: "jstring \<Rightarrow> jstring" where
  "dropMinus v = (if take 1 v = js ''-'' then drop 1 v else v)"

text \<open>\<open>/^-?\d+$/\<close>\<close>

definition intLexical :: "jstring \<Rightarrow> bool" where
  "intLexical v = allDigits (dropMinus v)"

text \<open>\<open>/^-?\d*\.?\d+$/\<close>\<close>

definition decimalLexical :: "jstring \<Rightarrow> bool" where
  "decimalLexical v =
     (let a = takeWhile isDigit (dropMinus v); r = dropWhile isDigit (dropMinus v)
      in if r = [] then a \<noteq> [] else take 1 r = js ''.'' \<and> allDigits (drop 1 r))"

text \<open>A fixed shape: \<open>None\<close> stands for one digit, \<open>Some c\<close> for the character \<open>c\<close>.\<close>

fun matchShape :: "jchar option list \<Rightarrow> jstring \<Rightarrow> jstring option" where
  "matchShape [] w = Some w"
| "matchShape (p # ps) [] = None"
| "matchShape (p # ps) (c # cs) =
     (if (case p of None \<Rightarrow> isDigit c | Some l \<Rightarrow> c = l) then matchShape ps cs else None)"

definition dateShape :: "jchar option list" where
  "dateShape = [None, None, None, None, Some 0x2D, None, None, Some 0x2D, None, None]"

definition timeShape :: "jchar option list" where
  "timeShape = [None, None, Some 0x3A, None, None, Some 0x3A, None, None]"

text \<open>\<open>/(\.\d+)?(Z|[+-]\d{2}:\d{2})?$/\<close>\<close>

definition fractionAndZone :: "jstring \<Rightarrow> bool" where
  "fractionAndZone r =
     (case (if take 1 r = js ''.''
            then (if takeWhile isDigit (drop 1 r) \<noteq> [] then Some (dropWhile isDigit (drop 1 r)) else None)
            else Some r) of
        None \<Rightarrow> False
      | Some z \<Rightarrow>
          z = [] \<or> z = js ''Z'' \<or>
          ((take 1 z = js ''+'' \<or> take 1 z = js ''-'')
            \<and> matchShape [None, None, Some 0x3A, None, None] (drop 1 z) = Some []))"

definition validateSimpleValue :: "jstring \<Rightarrow> jstring \<Rightarrow> bool" where
  "validateSimpleValue v ty =
     (if ty = js ''string'' then True
      else if ty = js ''int'' \<or> ty = js ''integer'' then intLexical v
      else if ty = js ''decimal'' \<or> ty = js ''float'' \<or> ty = js ''double'' then decimalLexical v
      else if ty = js ''boolean'' then v = js ''true'' \<or> v = js ''false'' \<or> v = js ''1'' \<or> v = js ''0''
      else if ty = js ''date'' then matchShape dateShape v = Some []
      else if ty = js ''dateTime''
      then (case matchShape (dateShape @ [Some 0x54] @ timeShape) v of
              None \<Rightarrow> False | Some r \<Rightarrow> fractionAndZone r)
      else if ty = js ''time''
      then (case matchShape timeShape v of None \<Rightarrow> False | Some r \<Rightarrow> fractionAndZone r)
      else True)"

definition isBuiltInType :: "jstring \<Rightarrow> bool" where
  "isBuiltInType ty \<longleftrightarrow>
     ty \<in> set [js ''string'', js ''int'', js ''integer'', js ''decimal'', js ''float'', js ''double'',
               js ''boolean'', js ''date'', js ''dateTime'', js ''time'', js ''base64Binary'',
               js ''hexBinary'']"

subsection \<open>Restriction facets\<close>

definition facetNumber :: "'r host \<Rightarrow> facetValue \<Rightarrow> jsnum" where
  "facetNumber h v = (case v of StrVal s \<Rightarrow> toNumber h s | NumVal n \<Rightarrow> n)"

definition facetString :: "'r host \<Rightarrow> facetValue \<Rightarrow> jstring" where
  "facetString h v = (case v of StrVal s \<Rightarrow> s | NumVal n \<Rightarrow> numberToString h n)"

definition inElement :: "jstring \<Rightarrow> jstring \<Rightarrow> jstring" where
  "inElement v elementName = js ''Value '' @ quoted v @ js '' in element '' @ quoted elementName"

definition validateRestriction ::
  "'r host \<Rightarrow> jstring \<Rightarrow> XsdRestriction \<Rightarrow> nat \<Rightarrow> nat \<Rightarrow> jstring \<Rightarrow> ValidationError list
     \<Rightarrow> exn + ValidationError list" where
  "validateRestriction h v restriction lno cno elementName errors =
     (if r_type restriction = js ''minLength''
      then Inr (if numLess (numOfNat (length v)) (facetNumber h (r_value restriction))
                then addError lno cno
                       (inElement v elementName @ js '' is too short. Minimum length is ''
                        @ facetString h (r_value restriction))
                       (js ''MIN_LENGTH_VIOLATION'') errors
                else errors)
      else if r_type restriction = js ''maxLength''
      then Inr (if numLess (facetNumber h (r_value restriction)) (numOfNat (length v))
                then addError lno cno
                       (inElement v elementName @ js '' is too long. Maximum length is ''
                        @ facetString h (r_value restriction))
                       (js ''MAX_LENGTH_VIOLATION'') errors
                else errors)
      else if r_type restriction = js ''pattern''
      then (case regExpCompile h (facetString h (r_value restriction)) of
              None \<Rightarrow> Inl SyntaxError
            | Some regex \<Rightarrow>
                Inr (if \<not> regExpTest h regex v
                     then addError lno cno
                            (inElement v elementName @ js '' does not match pattern ''
                             @ quoted (facetString h (r_value restriction)))
                            (js ''PATTERN_VIOLATION'') errors
                     else errors))
      else if r_type restriction = js ''enumeration''
      then Inr errors
      else if r_type restriction = js ''minInclusive''
      then Inr (if numLess (toNumber h v) (facetNumber h (r_value restriction))
                then addError lno cno
                       (inElement v elementName @ js '' is below minimum ''
                        @ facetString h (r_value restriction))
                       (js ''MIN_INCLUSIVE_VIOLATION'') errors
                else errors)
      else if r_type restriction = js ''maxInclusive''
      then Inr (if numLess (facetNumber h (r_value restriction)) (toNumber h v)
                then addError lno cno
                       (inElement v elementName @ js '' is above maximum ''
                        @ facetString h (r_value restriction))
                       (js ''MAX_INCLUSIVE_VIOLATION'') errors
                else errors)
      else Inr errors)"

fun validateRestrictions ::
  "'r host \<Rightarrow> jstring \<Rightarrow> XsdRestriction list \<Rightarrow> nat \<Rightarrow> nat \<Rightarrow> jstring \<Rightarrow> ValidationError list
     \<Rightarrow> exn + ValidationError list" where
  "validateRestrictions h v [] lno cno elementName errors = Inr errors"
| "validateRestrictions h v (restriction # restrictions) lno cno elementName errors =
     (case validateRestriction h v restriction lno cno elementName errors of
        Inl e \<Rightarrow> Inl e
      | Inr errors' \<Rightarrow> validateRestrictions h v restrictions lno cno elementName errors')"

subsection \<open>Attributes\<close>

definition requiredStep ::
  "XmlNode \<Rightarrow> nat \<Rightarrow> nat \<Rightarrow> ValidationError list \<Rightarrow> XsdAttribute \<Rightarrow> ValidationError list" where
  "requiredStep xmlNode lno cno errors xsdAttr =
     (if a_use xsdAttr = js ''required'' \<and> \<not> truthy (map_of (node_attributes xmlNode) (a_name xsdAttr))
      then addError lno cno
             (js ''Required attribute '' @ quoted (a_name xsdAttr) @ js '' is missing'')
             (js ''MISSING_REQUIRED_ATTRIBUTE'') errors
      else errors)"

definition attributeStep ::
  "XsdComplexType \<Rightarrow> nat \<Rightarrow> nat \<Rightarrow> ValidationError list \<Rightarrow> jstring \<times> jstring \<Rightarrow> ValidationError list" where
  "attributeStep complexType lno cno errors entry =
     (case find (\<lambda>a. a_name a = fst entry) (ct_attributes complexType) of
        None \<Rightarrow>
          addError lno cno (js ''Attribute '' @ quoted (fst entry) @ js '' is not allowed'')
            (js ''UNEXPECTED_ATTRIBUTE'') errors
      | Some xsdAttr \<Rightarrow>
          (let errors1 =
                 (if truthy (a_fixedValue xsdAttr) \<and> Some (snd entry) \<noteq> a_fixedValue xsdAttr
                  then addError lno cno
                         (js ''Attribute '' @ quoted (fst entry) @ js '' must have value ''
                          @ quoted (the (a_fixedValue xsdAttr)))
                         (js ''FIXED_VALUE_VIOLATION'') errors
                  else errors)
           in if \<not> validateSimpleValue (snd entry) (a_type xsdAttr)
              then addError lno cno
                     (js ''Invalid value '' @ quoted (snd entry) @ js '' for attribute ''
                      @ quoted (fst entry) @ js '' of type '' @ quoted (a_type xsdAttr))
                     (js ''INVALID_ATTRIBUTE_VALUE'') errors1
              else errors1))"

definition validateAttributes ::
  "XsdSchema \<Rightarrow> XmlNode \<Rightarrow> XsdElement \<Rightarrow> nat \<Rightarrow> nat \<Rightarrow> ValidationError list \<Rightarrow> ValidationError list" where
  "validateAttributes schema xmlNode xsdElement lno cno errors =
     (case map_of (complexTypes schema) (e_type xsdElement) of
        None \<Rightarrow> errors
      | Some complexType \<Rightarrow>
          foldl (attributeStep complexType lno cno)
            (foldl (requiredStep xmlNode lno cno) errors (ct_attributes complexType))
            (node_attributes xmlNode))"

subsection \<open>Simple content\<close>

text \<open>\<open>xmlNode.text || xmlNode.children.find(child => child.name === '#text')?.text || ''\<close>\<close>

definition textContent :: "XmlNode \<Rightarrow> jstring" where
  "textContent xmlNode =
     (if truthy (node_text xmlNode) then the (node_text xmlNode)
      else (case find (\<lambda>child. node_name child = js ''#text'') (node_children xmlNode) of
              None \<Rightarrow> []
            | Some child \<Rightarrow> if truthy (node_text child) then the (node_text child) else []))"

definition validateSimpleContent ::
  "'r host \<Rightarrow> XmlNode \<Rightarrow> XsdElement \<Rightarrow> nat \<Rightarrow> nat \<Rightarrow> ValidationError list
     \<Rightarrow> exn + ValidationError list" where
  "validateSimpleContent h xmlNode xsdElement lno cno errors =
     (if node_children xmlNode \<noteq> [] \<and> list_ex (\<lambda>child. node_name child \<noteq> js ''#text'') (node_children xmlNode)
      then Inr (addError lno cno
                  (js ''Element '' @ quoted (node_name xmlNode)
                   @ js '' should contain simple content but has child elements'')
                  (js ''INVALID_CONTENT'') errors)
      else (let errors1 =
                  (if \<not> validateSimpleValue (textContent xmlNode) (e_type xsdElement)
                   then addError lno cno
                          (js ''Invalid value '' @ quoted (textContent xmlNode) @ js '' for element ''
                           @ quoted (node_name xmlNode) @ js '' of type '' @ quoted (e_type xsdElement))
                          (js ''INVALID_ELEMENT_VALUE'') errors
                   else errors)
            in case e_restrictions xsdElement of
                 None \<Rightarrow> Inr errors1
               | Some restrictions \<Rightarrow>
                   validateRestrictions h (textContent xmlNode) restrictions lno cno
                     (node_name xmlNode) errors1))"

definition validateSimpleTypeContent ::
  "'r host \<Rightarrow> XmlNode \<Rightarrow> XsdSimpleType \<Rightarrow> nat \<Rightarrow> nat \<Rightarrow> ValidationError list
     \<Rightarrow> exn + ValidationError list" where
  "validateSimpleTypeContent h xmlNode simpleType lno cno errors =
     validateRestrictions h (textContent xmlNode) (st_restrictions simpleType) lno cno
       (node_name xmlNode)
       (if \<not> validateSimpleValue (textContent xmlNode) (st_baseType simpleType)
        then addError lno cno
               (js ''Invalid value '' @ quoted (textContent xmlNode) @ js '' for base type ''
                @ quoted (st_baseType simpleType))
               (js ''INVALID_SIMPLE_TYPE_VALUE'') errors
        else errors)"

definition validateInlineContent ::
  "'r host \<Rightarrow> XmlNode \<Rightarrow> XsdElement \<Rightarrow> nat \<Rightarrow> nat \<Rightarrow> ValidationError list
     \<Rightarrow> exn + ValidationError list" where
  "validateInlineContent h xmlNode xsdElement lno cno errors =
     (case e_restrictions xsdElement of
        None \<Rightarrow> Inr errors
      | Some restrictions \<Rightarrow>
          validateRestrictions h (textContent xmlNode) restrictions lno cno (node_name xmlNode) errors)"

subsection \<open>Elements and complex content\<close>

definition minOccursCheck ::
  "'r host \<Rightarrow> XsdElement \<Rightarrow> nat \<Rightarrow> nat \<Rightarrow> nat \<Rightarrow> ValidationError list \<Rightarrow> ValidationError list" where
  "minOccursCheck h xsdElement n lno cno errors =
     (if numLess (numOfNat n) (e_minOccurs xsdElement)
      then addError lno cno
             (js ''Element '' @ quoted (e_name xsdElement) @ js '' occurs '' @ showNat n
              @ js '' times but minimum is '' @ numberToString h (e_minOccurs xsdElement))
             (js ''MIN_OCCURS_VIOLATION'') errors
      else errors)"

definition maxOccursCheck ::
  "'r host \<Rightarrow> XsdElement \<Rightarrow> nat \<Rightarrow> nat \<Rightarrow> nat \<Rightarrow> ValidationError list \<Rightarrow> ValidationError list" where
  "maxOccursCheck h xsdElement n lno cno errors =
     (case e_maxOccurs xsdElement of
        Unbounded \<Rightarrow> errors
      | Bounded m \<Rightarrow>
          if numLess m (numOfNat n)
          then addError lno cno
                 (js ''Element '' @ quoted (e_name xsdElement) @ js '' occurs '' @ showNat n
                  @ js '' times but maximum is '' @ numberToString h m)
                 (js ''MAX_OCCURS_VIOLATION'') errors
          else errors)"

definition unexpectedStep ::
  "XsdComplexType \<Rightarrow> nat \<Rightarrow> nat \<Rightarrow> ValidationError list \<Rightarrow> XmlNode \<Rightarrow> ValidationError list" where
  "unexpectedStep complexType lno cno errors childElement =
     (if \<not> list_ex (\<lambda>xsdEl. e_name xsdEl = node_name childElement) (ct_elements complexType)
      then addError lno cno (js ''Unexpected element '' @ quoted (node_name childElement))
             (js ''UNEXPECTED_ELEMENT'') errors
      else errors)"

lemma size_list_filter_le: "size_list f (filter P xs) \<le> size_list f xs"
  by (induction xs) auto

lemma size_children: "size_list size (node_children n) < size n"
  by (cases n) simp

function validateElement ::
    "'r host \<Rightarrow> XsdSchema \<Rightarrow> XmlNode \<Rightarrow> XsdElement \<Rightarrow> nat \<Rightarrow> nat \<Rightarrow> ValidationError list
       \<Rightarrow> exn + ValidationError list"
  and validateComplexContent ::
    "'r host \<Rightarrow> XsdSchema \<Rightarrow> XmlNode \<Rightarrow> XsdComplexType \<Rightarrow> nat \<Rightarrow> nat \<Rightarrow> ValidationError list
       \<Rightarrow> exn + ValidationError list"
  and particlesLoop ::
    "'r host \<Rightarrow> XsdSchema \<Rightarrow> XmlNode list \<Rightarrow> XsdElement list \<Rightarrow> nat \<Rightarrow> nat \<Rightarrow> ValidationError list
       \<Rightarrow> exn + ValidationError list"
  and occurrencesLoop ::
    "'r host \<Rightarrow> XsdSchema \<Rightarrow> XmlNode list \<Rightarrow> XsdElement \<Rightarrow> nat \<Rightarrow> nat \<Rightarrow> ValidationError list
       \<Rightarrow> exn + ValidationError list"
where
  "validateElement h schema xmlNode xsdElement lno cno errors =
     (if node_name xmlNode \<noteq> e_name xsdElement
      then Inr (addError lno cno
                  (js ''Expected element '' @ quoted (e_name xsdElement) @ js '' but found ''
                   @ quoted (node_name xmlNode))
                  (js ''ELEMENT_MISMATCH'') errors)
      else if isBuiltInType (e_type xsdElement)
      then validateSimpleContent h xmlNode xsdElement lno cno
             (validateAttributes schema xmlNode xsdElement lno cno errors)
      else (case map_of (complexTypes schema) (e_type xsdElement) of
              Some complexType \<Rightarrow>
                validateComplexContent h schema xmlNode complexType lno cno
                  (validateAttributes schema xmlNode xsdElement lno cno errors)
            | None \<Rightarrow>
                (case map_of (simpleTypes schema) (e_type xsdElement) of
                   Some simpleType \<Rightarrow>
                     validateSimpleTypeContent h xmlNode simpleType lno cno
                       (validateAttributes schema xmlNode xsdElement lno cno errors)
                 | None \<Rightarrow>
                     if startsWith (e_type xsdElement) (js ''#inline-'')
                     then validateInlineContent h xmlNode xsdElement lno cno
                            (validateAttributes schema xmlNode xsdElement lno cno errors)
                     else Inr (validateAttributes schema xmlNode xsdElement lno cno errors))))"
| "validateComplexContent h schema xmlNode complexType lno cno errors =
     (case particlesLoop h schema
             (filter (\<lambda>child. node_name child \<noteq> js ''#text'') (node_children xmlNode))
             (ct_elements complexType) lno cno errors of
        Inl e \<Rightarrow> Inl e
      | Inr errors1 \<Rightarrow>
          Inr (foldl (unexpectedStep complexType lno cno) errors1
                 (filter (\<lambda>child. node_name child \<noteq> js ''#text'') (node_children xmlNode))))"
| "particlesLoop h schema childElements [] lno cno errors = Inr errors"
| "particlesLoop h schema childElements (xsdElement # xsdElements) lno cno errors =
     (case occurrencesLoop h schema
             (filter (\<lambda>child. node_name child = e_name xsdElement) childElements) xsdElement lno cno
             (maxOccursCheck h xsdElement
                (length (filter (\<lambda>child. node_name child = e_name xsdElement) childElements)) lno cno
                (minOccursCheck h xsdElement
                   (length (filter (\<lambda>child. node_name child = e_name xsdElement) childElements))
                   lno cno errors)) of
        Inl e \<Rightarrow> Inl e
      | Inr errors1 \<Rightarrow> particlesLoop h schema childElements xsdElements lno cno errors1)"
| "occurrencesLoop h schema [] xsdElement lno cno errors = Inr errors"
| "occurrencesLoop h schema (childElement # matchingChildren) xsdElement lno cno errors =
     (case validateElement h schema childElement xsdElement lno cno errors of
        Inl e \<Rightarrow> Inl e
      | Inr errors1 \<Rightarrow> occurrencesLoop h schema matchingChildren xsdElement lno cno errors1)"
  by pat_completeness auto

termination validateElement
proof (relation "measures
    [\<lambda>x. case x of
            Inl (Inl (h, schema, xmlNode, r)) \<Rightarrow> size xmlNode
          | Inl (Inr (h, schema, xmlNode, r)) \<Rightarrow> size xmlNode
          | Inr (Inl (h, schema, childElements, r)) \<Rightarrow> size_list size childElements
          | Inr (Inr (h, schema, matchingChildren, r)) \<Rightarrow> size_list size matchingChildren,
     \<lambda>x. case x of
            Inl (Inl a) \<Rightarrow> Suc 0
          | Inl (Inr a) \<Rightarrow> 0
          | Inr (Inl a) \<Rightarrow> Suc 0
          | Inr (Inr a) \<Rightarrow> 0,
     \<lambda>x. case x of
            Inr (Inl (h, schema, childElements, xsdElements, r)) \<Rightarrow> length xsdElements
          | _ \<Rightarrow> 0]", goal_cases)
  case 1
  show ?case by simp
next
  case 2
  show ?case by simp
next
  case (3 h schema xmlNode complexType lno cno errors)
  show ?case
    using size_list_filter_le [of size "\<lambda>child. node_name child \<noteq> js ''#text''" "node_children xmlNode"]
      size_children [of xmlNode]
    by simp
next
  case (4 h schema childElements xsdElement xsdElements lno cno errors)
  show ?case
    using size_list_filter_le [of size "\<lambda>child. node_name child = e_name xsdElement" childElements]
    by auto
next
  case 5
  show ?case by simp
next
  case 6
  show ?case by simp
next
  case 7
  show ?case by simp
qed

declare validateElement.simps [simp del] validateComplexContent.simps [simp del]

text \<open>\<open>validate\<close>: the diagnostics, or the error that leaves the call.\<close>

definition validate :: "'r host \<Rightarrow> XsdSchema \<Rightarrow> XmlNode \<Rightarrow> exn + ValidationError list" where
  "validate h schema xmlNode =
     (case map_of (elements schema) (node_name xmlNode) of
        None \<Rightarrow>
          Inr (addError 1 1
                 (js ''Root element '' @ quoted (node_name xmlNode) @ js '' not found in schema'')
                 (js ''ELEMENT_NOT_FOUND'') [])
      | Some rootElement \<Rightarrow> validateElement h schema xmlNode rootElement 1 1 [])"

section \<open>Properties of the parser\<close>

subsection \<open>Cursor position\<close>

text \<open>
  The cursor \<open>s\<close> tells the truth about the consumed prefix \<open>take (position s) xml\<close>: the
  line is one more than its number of newlines, the column one more than the number of code
  units after its last newline.
\<close>

definition tracked :: "jstring \<Rightarrow> pstate \<Rightarrow> bool" where
  "tracked xml s \<longleftrightarrow>
     position s \<le> length xml \<and> rest s = drop (position s) xml \<and>
     line s = 1 + count_list (take (position s) xml) 0x0A \<and>
     column s = 1 + length (takeWhile (\<lambda>c. c \<noteq> 0x0A) (rev (take (position s) xml)))"

definition resultTracked :: "jstring \<Rightarrow> 'a result \<Rightarrow> bool" where
  "resultTracked xml r = (case r of Throw m e \<Rightarrow> tracked xml e | Ok v s \<Rightarrow> tracked xml s)"

lemma tracked_initial: "tracked xml (initial xml)"
  by (simp add: tracked_def initial_def)

lemma tracked_advance:
  assumes "tracked xml s"
  shows "tracked xml (advance s)"
proof (cases "rest s")
  case Nil
  with assms show ?thesis by (simp add: advance_def)
next
  case (Cons c cs)
  from assms have r: "rest s = drop (position s) xml" by (simp add: tracked_def)
  with Cons have lt: "position s < length xml"
    by (metis drop_all linorder_not_less list.discI)
  from r Cons lt have c: "xml ! position s = c" and cs: "cs = drop (Suc (position s)) xml"
    by (metis Cons_nth_drop_Suc list.inject)+
  have tk: "take (Suc (position s)) xml = take (position s) xml @ [c]"
    using lt c by (simp add: take_Suc_conv_app_nth)
  have adv: "advance s = (if c = 0x0A
      then s\<lparr>rest := cs, position := position s + 1, line := line s + 1, column := 1\<rparr>
      else s\<lparr>rest := cs, position := position s + 1, column := column s + 1\<rparr>)"
    by (simp add: advance_def Cons)
  from assms have ln: "line s = 1 + count_list (take (position s) xml) 0x0A"
    and cl: "column s = 1 + length (takeWhile (\<lambda>c. c \<noteq> 0x0A) (rev (take (position s) xml)))"
    by (simp_all add: tracked_def)
  show ?thesis
    unfolding tracked_def adv using lt cs tk ln cl by simp
qed

lemma tracked_skipWhitespace: "tracked xml s \<Longrightarrow> tracked xml (skipWhitespace s)"
proof (induction s rule: skipWhitespace.induct)
  case (1 s)
  then show ?case
    by (subst skipWhitespace.simps) (simp add: tracked_advance)
qed

lemma tracked_nameLoop: "tracked xml s \<Longrightarrow> tracked xml (snd (nameLoop nm s))"
proof (induction nm s rule: nameLoop.induct)
  case (1 nm s)
  then show ?case
    by (subst nameLoop.simps) (simp add: tracked_advance)
qed

lemma tracked_parseName: "tracked xml s \<Longrightarrow> resultTracked xml (parseName s)"
  using tracked_nameLoop [of xml s "[]"]
  by (auto simp: parseName_def resultTracked_def Let_def split: prod.splits)

lemma tracked_entityLoop: "tracked xml s \<Longrightarrow> tracked xml (snd (entityLoop en s))"
proof (induction en s rule: entityLoop.induct)
  case (1 en s)
  then show ?case
    by (subst entityLoop.simps) (simp add: tracked_advance)
qed

lemma tracked_parseEntity: "tracked xml s \<Longrightarrow> resultTracked xml (parseEntity s)"
  using tracked_entityLoop [of xml "advance s" "[]"]
  by (auto simp: parseEntity_def resultTracked_def tracked_advance split: prod.splits)

lemma tracked_attributeValueLoop:
  "tracked xml s \<Longrightarrow> resultTracked xml (attributeValueLoop q v s)"
proof (induction q v s rule: attributeValueLoop.induct)
  case (1 quote val s)
  show ?case
  proof (cases "rest s \<noteq> [] \<and> current s \<noteq> quote")
    case False
    with 1 show ?thesis
      by (subst attributeValueLoop.simps) (auto simp: resultTracked_def)
  next
    case True
    show ?thesis
    proof (cases "current s = js ''&''")
      case amp: True
      show ?thesis
      proof (cases "parseEntity s")
        case (Throw m e)
        with tracked_parseEntity [OF "1.prems"] True amp show ?thesis
          by (subst attributeValueLoop.simps) (simp add: resultTracked_def)
      next
        case (Ok w s1)
        with tracked_parseEntity [OF "1.prems"] have "tracked xml s1"
          by (simp add: resultTracked_def)
        from "1.IH"(1) [OF True amp Ok this] True amp Ok show ?thesis
          by (subst attributeValueLoop.simps) simp
      qed
    next
      case False
      from "1.IH"(2) [OF True False tracked_advance [OF "1.prems"]] True False show ?thesis
        by (subst attributeValueLoop.simps) simp
    qed
  qed
qed

lemma tracked_parseAttributeValue:
  assumes "tracked xml s"
  shows "resultTracked xml (parseAttributeValue s)"
proof -
  have "resultTracked xml (attributeValueLoop (current s) [] (advance s))"
    using assms by (intro tracked_attributeValueLoop tracked_advance)
  with assms show ?thesis
    by (auto simp: parseAttributeValue_def resultTracked_def Let_def tracked_advance
        split: result.splits)
qed

lemma tracked_attributesLoop:
  "tracked xml s \<Longrightarrow> resultTracked xml (attributesLoop a s)"
proof (induction a s rule: attributesLoop.induct)
  case (1 attrs s)
  note ws = tracked_skipWhitespace [OF "1.prems"]
  show ?case
  proof (cases "rest s \<noteq> []")
    case False
    with 1 show ?thesis
      by (subst attributesLoop.simps) (simp add: resultTracked_def)
  next
    case ne: True
    show ?thesis
    proof (cases "current (skipWhitespace s) = js ''>'' \<or> current (skipWhitespace s) = js ''/''
               \<or> current (skipWhitespace s) = js ''?''")
      case True
      with ne ws show ?thesis
        by (subst attributesLoop.simps) (auto simp: resultTracked_def)
    next
      case brk: False
      show ?thesis
      proof (cases "parseName (skipWhitespace s)")
        case (Throw m e)
        with tracked_parseName [OF ws] ne brk show ?thesis
          by (subst attributesLoop.simps) (simp add: resultTracked_def)
      next
        case (Ok nm s2)
        with tracked_parseName [OF ws] have t2: "tracked xml s2"
          by (simp add: resultTracked_def)
        note w2 = tracked_skipWhitespace [OF t2]
        show ?thesis
        proof (cases "current (skipWhitespace s2) \<noteq> js ''=''")
          case True
          with ne brk Ok w2 show ?thesis
            by (subst attributesLoop.simps) (simp add: resultTracked_def)
        next
          case eq: False
          have t4: "tracked xml (skipWhitespace (advance (skipWhitespace s2)))"
            by (intro tracked_skipWhitespace tracked_advance w2)
          show ?thesis
          proof (cases "parseAttributeValue (skipWhitespace (advance (skipWhitespace s2)))")
            case (Throw m e)
            with tracked_parseAttributeValue [OF t4] ne brk Ok eq show ?thesis
              by (subst attributesLoop.simps) (simp add: resultTracked_def)
          next
            case v: (Ok v s5)
            with tracked_parseAttributeValue [OF t4] have "tracked xml s5"
              by (simp add: resultTracked_def)
            from "1.IH" [OF ne brk Ok eq v this] ne brk Ok eq v show ?thesis
              by (subst attributesLoop.simps) simp
          qed
        qed
      qed
    qed
  qed
qed

lemma tracked_parseEndTag:
  assumes "tracked xml s"
  shows "resultTracked xml (parseEndTag nm s)"
proof -
  have a: "tracked xml (advance (advance s))"
    by (intro tracked_advance assms)
  show ?thesis
  proof (cases "parseName (advance (advance s))")
    case (Throw m e)
    with tracked_parseName [OF a] assms show ?thesis
      by (simp add: parseEndTag_def resultTracked_def)
  next
    case (Ok en s1)
    with tracked_parseName [OF a] have "tracked xml s1"
      by (simp add: resultTracked_def)
    then have "tracked xml s1" "tracked xml (skipWhitespace s1)"
      "tracked xml (advance (skipWhitespace s1))"
      by (simp_all add: tracked_skipWhitespace tracked_advance)
    with Ok assms show ?thesis
      by (simp add: parseEndTag_def resultTracked_def)
  qed
qed

lemma tracked_elements:
  shows "tracked xml s \<Longrightarrow> resultTracked xml (parseElement s)"
  and "tracked xml s1 \<Longrightarrow> resultTracked xml (parseElementContent nm attrs s1)"
  and "tracked xml s2 \<Longrightarrow> resultTracked xml (contentLoop children text0 s2)"
proof (induction s and nm attrs s1 and children text0 s2
    rule: parseElement_parseElementContent_contentLoop.induct)
  case (1 s)
  note adv = tracked_advance [OF "1.prems"]
  show ?case
  proof (cases "current s \<noteq> js ''<'' \<or> current (advance s) = js ''/''")
    case True
    with "1.prems" adv show ?thesis
      by (subst parseElement.simps) (auto simp: resultTracked_def)
  next
    case ok: False
    show ?thesis
    proof (cases "parseName (advance s)")
      case (Throw m e)
      with tracked_parseName [OF adv] ok show ?thesis
        by (subst parseElement.simps) (simp add: resultTracked_def)
    next
      case n: (Ok nm s2)
      with tracked_parseName [OF adv] have t2: "tracked xml s2"
        by (simp add: resultTracked_def)
      show ?thesis
      proof (cases "parseAttributes s2")
        case (Throw m e)
        with tracked_attributesLoop [OF t2, of "[]"] ok n show ?thesis
          by (subst parseElement.simps) (simp add: resultTracked_def parseAttributes_def)
      next
        case a: (Ok attrs s3)
        with tracked_attributesLoop [OF t2, of "[]"] have "tracked xml s3"
          by (simp add: resultTracked_def parseAttributes_def)
        then have w: "tracked xml (skipWhitespace s3)"
          by (rule tracked_skipWhitespace)
        then have w1: "tracked xml (advance (skipWhitespace s3))"
          and w2: "tracked xml (advance (advance (skipWhitespace s3)))"
          by (simp_all add: tracked_advance)
        show ?thesis
        proof (cases "current (skipWhitespace s3) = js ''/'' \<and> peek 1 (skipWhitespace s3) = js ''>''")
          case True
          with ok n a w2 show ?thesis
            by (subst parseElement.simps) (simp add: resultTracked_def)
        next
          case nsc: False
          show ?thesis
          proof (cases "current (skipWhitespace s3) \<noteq> js ''>''")
            case True
            with ok n a nsc w w2 show ?thesis
              by (subst parseElement.simps) (auto simp: resultTracked_def)
          next
            case gt: False
            from ok have c1: "\<not> current s \<noteq> js ''<''" and c2: "current (advance s) \<noteq> js ''/''"
              by simp_all
            from "1.IH" [OF c1 c2 n a nsc gt w1] ok n a nsc gt w2 show ?thesis
              by (subst parseElement.simps) (simp add: resultTracked_def)
          qed
        qed
      qed
    qed
  qed
next
  case (2 nm attrs s)
  show ?case
  proof (cases "contentLoop [] [] s")
    case (Throw m e)
    with "2.IH" [OF "2.prems"] show ?thesis
      by (subst parseElementContent.simps) (simp add: resultTracked_def)
  next
    case (Ok r s1)
    with "2.IH" [OF "2.prems"] have "tracked xml s1"
      by (simp add: resultTracked_def)
    from tracked_parseEndTag [OF this, of nm] Ok show ?thesis
      by (subst parseElementContent.simps)
         (auto simp: resultTracked_def split: result.splits prod.splits)
  qed
next
  case (3 children text0 s)
  note ws = tracked_skipWhitespace [OF "3.prems"]
  show ?case
  proof (cases "rest s \<noteq> []")
    case False
    with "3.prems" show ?thesis
      by (subst contentLoop.simps) (simp add: resultTracked_def)
  next
    case ne: True
    show ?thesis
    proof (cases "current (skipWhitespace s) = js ''<''")
      case notlt: False
      from "3.IH"(3) [OF ne notlt tracked_advance [OF ws]] ne notlt show ?thesis
        by (subst contentLoop.simps) simp
    next
      case lt: True
      show ?thesis
      proof (cases "peek 1 (skipWhitespace s) = js ''/''")
        case True
        with ne lt ws show ?thesis
          by (subst contentLoop.simps) (simp add: resultTracked_def)
      next
        case nsl: False
        show ?thesis
        proof (cases "parseElement (skipWhitespace s)")
          case (Throw m e)
          with "3.IH"(1) [OF ne lt nsl ws] ne lt nsl show ?thesis
            by (subst contentLoop.simps) (simp add: resultTracked_def)
        next
          case p: (Ok child s3)
          with "3.IH"(1) [OF ne lt nsl ws] have "tracked xml s3"
            by (simp add: resultTracked_def)
          from "3.IH"(2) [OF ne lt nsl p this] ne lt nsl p show ?thesis
            by (subst contentLoop.simps) simp
        qed
      qed
    qed
  qed
qed

lemma tracked_skipProcessingInstruction:
  "tracked xml s \<Longrightarrow> tracked xml (skipProcessingInstruction s)"
proof (induction s rule: skipProcessingInstruction.induct)
  case (1 s)
  then show ?case
    by (subst skipProcessingInstruction.simps) (simp add: tracked_advance)
qed

text \<open>
  \<open>peek\<close> returns at most one code unit, so the comparisons of \<open>skipComment\<close> and the
  test for an XML declaration never succeed: \<open>skipComment\<close> leaves the cursor where it is,
  and \<open>skipXmlComment\<close>, \<open>skipDoctype\<close> and \<open>skipDeclaration\<close> are never called.
\<close>

lemma peek_short: "1 < length w \<Longrightarrow> peek n s \<noteq> w"
  by (auto simp: peek_def)

lemma skipComment_id: "skipComment s = s"
  by (simp add: skipComment_def peek_short js_def)

lemma no_declaration: "peek 5 s \<noteq> js ''<?xml''"
  by (simp add: peek_short js_def)

text \<open>
  Were \<open>skipXmlComment\<close> ever called, the cursor would lose track of the column: it moves
  the offset by 4 and by 3 without \<open>advance\<close>.
\<close>

lemma skipXmlComment_untracked:
  "skipXmlComment (initial (js ''<!--x-->'')) = \<lparr>rest = [], position = 8, line = 1, column = 2\<rparr>
   \<and> \<not> tracked (js ''<!--x-->'') (skipXmlComment (initial (js ''<!--x-->'')))"
  by code_simp

lemma tracked_prologLoop:
  assumes "prologLoop s = Some s'" and "tracked xml s"
  shows "tracked xml s'"
proof -
  have "tracked xml s \<longrightarrow> tracked xml s'"
  proof (rule prologLoop.raw_induct [where P = "\<lambda>s s'. tracked xml s \<longrightarrow> tracked xml s'"],
      goal_cases)
    case (1 loop s sa)
    show ?case
    proof
      assume t: "tracked xml s"
      show "tracked xml sa"
      proof (cases "rest s \<noteq> [] \<and> current s = js ''<''")
        case False
        with 1(2) t show ?thesis by auto
      next
        case True
        show ?thesis
        proof (cases "peek 1 s = js ''!''")
          case bang: True
          with True 1(2) have "loop (skipWhitespace (skipComment s)) = Some sa"
            by simp
          from 1(1) [OF this] t show ?thesis
            by (simp add: skipComment_id tracked_skipWhitespace)
        next
          case nobang: False
          show ?thesis
          proof (cases "peek 1 s = js ''?''")
            case pi: True
            with True nobang 1(2)
            have "loop (skipWhitespace (skipProcessingInstruction s)) = Some sa"
              by simp
            from 1(1) [OF this] t show ?thesis
              by (simp add: tracked_skipProcessingInstruction tracked_skipWhitespace)
          next
            case False
            with True nobang 1(2) t show ?thesis
              by simp
          qed
        qed
      qed
    qed
  next
    case 2
    show ?case by (rule assms(1))
  qed
  with assms(2) show ?thesis by simp
qed

lemma tracked_parseBody:
  assumes "parseBody xml = Some r"
  shows "resultTracked xml r"
proof -
  from assms obtain s3 where
    p: "prologLoop (skipWhitespace (initial xml)) = Some s3" and r: "r = parseElement s3"
    by (auto simp: parseBody_def Let_def no_declaration split: option.splits)
  have "tracked xml (skipWhitespace (initial xml))"
    by (intro tracked_skipWhitespace tracked_initial)
  from tracked_prologLoop [OF p this] r show ?thesis
    by (simp add: tracked_elements(1))
qed

text \<open>
  C7. When \<open>parse\<close> fails, the position of its one diagnostic is the true position of the
  cursor \<open>e\<close> at the time of the error: \<open>e\<close> has consumed the prefix of length
  \<open>position e\<close> of the input, the line is 1 plus the number of newlines in that prefix,
  and the column is 1 plus the number of code units consumed since the last newline.
\<close>

theorem parse_error_position:
  assumes "parseBody xml = Some (Throw m e)"
  shows "position e \<le> length xml \<and> rest e = drop (position e) xml \<and>
         parse xml = Some (None,
           [\<lparr>err_line = 1 + count_list (take (position e) xml) 0x0A,
             err_column = 1 + length (takeWhile (\<lambda>c. c \<noteq> 0x0A) (rev (take (position e) xml))),
             err_message = m, err_code = js ''PARSE_ERROR''\<rparr>])"
proof -
  from tracked_parseBody [OF assms] have "tracked xml e"
    by (simp add: resultTracked_def)
  with assms show ?thesis
    by (simp add: parse_def parseError_def tracked_def)
qed

lemma parseBody_newlines:
  "parseBody ([0x0A, 0x0A] @ js ''  <a>'' @ [0x0A] @ js ''</b>'') =
     Some (Throw (js ''End tag '' @ [0x27] @ js ''b'' @ [0x27] @ js '' does not match start tag ''
                  @ [0x27] @ js ''a'' @ [0x27])
             \<lparr>rest = js ''>'', position = 11, line = 4, column = 4\<rparr>)"
  by code_simp

theorem parse_error_position_witness:
  "parseBody ([0x0A, 0x0A] @ js ''  <a>'' @ [0x0A] @ js ''</b>'') =
     Some (Throw (js ''End tag '' @ [0x27] @ js ''b'' @ [0x27] @ js '' does not match start tag ''
                  @ [0x27] @ js ''a'' @ [0x27])
             \<lparr>rest = js ''>'', position = 11, line = 4, column = 4\<rparr>)
   \<and> parse ([0x0A, 0x0A] @ js ''  <a>'' @ [0x0A] @ js ''</b>'') =
       Some (None, [\<lparr>err_line = 4, err_column = 4,
          err_message = js ''End tag '' @ [0x27] @ js ''b'' @ [0x27] @ js '' does not match start tag ''
                  @ [0x27] @ js ''a'' @ [0x27],
          err_code = js ''PARSE_ERROR''\<rparr>])"
  using parse_error_position [OF parseBody_newlines] parseBody_newlines
  by (simp add: js_def)

text \<open>A comment or a DOCTYPE before the root element: the loop of \<open>parse\<close> never ends.\<close>

lemma prologLoop_bang:
  assumes "prologLoop s = Some s'"
  shows "\<not> (current s = js ''<'' \<and> peek 1 s = js ''!'')"
proof (rule prologLoop.raw_induct
    [where P = "\<lambda>s s'. \<not> (current s = js ''<'' \<and> peek 1 s = js ''!'')" and s = s and y = s'],
    goal_cases)
  case (1 loop s sa)
  show ?case
  proof
    assume b: "current s = js ''<'' \<and> peek 1 s = js ''!''"
    then have ne: "rest s \<noteq> []" by (simp add: current_lt_nonempty)
    from b have "\<not> isWhitespace (current s)"
      by (simp add: isWhitespace_def js_def)
    then have "skipWhitespace s = s"
      by (subst skipWhitespace.simps) simp
    with b ne 1(2) have "loop s = Some sa"
      by (simp add: skipComment_id)
    from 1(1) [OF this] b show False by simp
  qed
next
  case 2
  show ?case by (rule assms)
qed

lemma parse_comment_diverges: "parse (js ''<!--c--><a/>'') = None"
proof -
  have "skipWhitespace (initial (js ''<!--c--><a/>'')) = initial (js ''<!--c--><a/>'')"
    by code_simp
  moreover have "current (initial (js ''<!--c--><a/>'')) = js ''<''
      \<and> peek 1 (initial (js ''<!--c--><a/>'')) = js ''!''"
    by code_simp
  ultimately have "prologLoop (skipWhitespace (initial (js ''<!--c--><a/>''))) = None"
    using prologLoop_bang [of "initial (js ''<!--c--><a/>'')"] by (metis not_Some_eq)
  then show ?thesis
    by (simp add: parse_def parseBody_def Let_def no_declaration)
qed

subsection \<open>Elements with text content\<close>

definition isSpaceUnit :: "jchar \<Rightarrow> bool" where
  "isSpaceUnit c = isWhitespace [c]"

definition isNameUnit :: "jchar \<Rightarrow> bool" where
  "isNameUnit c = isNameChar [c]"

definition isName :: "jstring \<Rightarrow> bool" where
  "isName nm \<longleftrightarrow> nm \<noteq> [] \<and> isNameStartChar (take 1 nm) \<and> list_all isNameUnit nm"

lemma rest_advance: "rest (advance s) = drop 1 (rest s)"
  by (simp add: advance_def drop_Suc split: list.splits)

lemma current_Cons: "rest s = c # cs \<Longrightarrow> current s = [c]"
  by (simp add: current_def)

lemma current_Nil: "rest s = [] \<Longrightarrow> current s = []"
  by (simp add: current_def)

lemma rest_skipWhitespace: "rest (skipWhitespace s) = dropWhile isSpaceUnit (rest s)"
proof (induction s rule: skipWhitespace.induct)
  case (1 s)
  show ?case
  proof (cases "rest s")
    case Nil
    then show ?thesis by (subst skipWhitespace.simps) simp
  next
    case (Cons c cs)
    with 1 show ?thesis
      by (subst skipWhitespace.simps)
         (simp add: current_Cons isSpaceUnit_def [symmetric] rest_advance)
  qed
qed

lemma nameLoop_rest:
  "fst (nameLoop acc s) = acc @ takeWhile isNameUnit (rest s) \<and>
   rest (snd (nameLoop acc s)) = dropWhile isNameUnit (rest s)"
proof (induction acc s rule: nameLoop.induct)
  case (1 nm s)
  show ?case
  proof (cases "rest s")
    case Nil
    then show ?thesis by (subst (1 2) nameLoop.simps) simp
  next
    case (Cons c cs)
    with 1 show ?thesis
      by (subst (1 2) nameLoop.simps)
         (simp add: current_Cons isNameUnit_def [symmetric] rest_advance)
  qed
qed

lemma parseName_ok:
  assumes "isNameStartChar (take 1 (rest s))" and "takeWhile isNameUnit (rest s) \<noteq> []"
  shows "\<exists>s'. parseName s = Ok (takeWhile isNameUnit (rest s)) s' \<and>
              rest s' = dropWhile isNameUnit (rest s)"
proof -
  obtain n1 s1 where l: "nameLoop [] s = (n1, s1)"
    by (cases "nameLoop [] s")
  with nameLoop_rest [of "[]" s] have "n1 = takeWhile isNameUnit (rest s)"
    and "rest s1 = dropWhile isNameUnit (rest s)" by simp_all
  with assms l show ?thesis
    by (simp add: parseName_def current_def)
qed

lemma isName_takeWhile:
  assumes "isName nm" and "r = [] \<or> \<not> isNameUnit (hd r)"
  shows "takeWhile isNameUnit (nm @ r) = nm" and "dropWhile isNameUnit (nm @ r) = r"
proof -
  from assms(1) have all: "\<forall>c\<in>set nm. isNameUnit c"
    by (simp add: isName_def list_all_iff)
  from assms(2) have "takeWhile isNameUnit r = []" and "dropWhile isNameUnit r = r"
    by (cases r; simp)+
  with all show "takeWhile isNameUnit (nm @ r) = nm" and "dropWhile isNameUnit (nm @ r) = r"
    by (simp_all add: takeWhile_append2 dropWhile_append2)
qed

lemma gt_not_name: "\<not> isNameUnit 0x3E"
  by (simp add: isNameUnit_def isNameChar_def isAsciiLetter_def isDigit_def highNameChar_def)

lemma parseName_isName:
  assumes "isName nm" and "rest s = nm @ r" and "r = [] \<or> \<not> isNameUnit (hd r)"
  shows "\<exists>s'. parseName s = Ok nm s' \<and> rest s' = r"
proof -
  from assms(1) obtain c cs where nm: "nm = c # cs" and st: "isNameStartChar [c]"
    by (cases nm) (auto simp: isName_def)
  from isName_takeWhile [OF assms(1,3)] assms(2)
  have t: "takeWhile isNameUnit (rest s) = nm" and d: "dropWhile isNameUnit (rest s) = r"
    by simp_all
  have "isNameStartChar (take 1 (rest s))"
    using assms(2) nm st by simp
  from parseName_ok [OF this] t d nm show ?thesis by simp
qed

lemma lt_not_space: "\<not> isSpaceUnit 0x3C"
  by (simp add: isSpaceUnit_def isWhitespace_def js_def)

lemma contentLoop_text:
  assumes "0x3C \<notin> set t" and "r = [] \<or> (\<exists>r'. r = 0x3C # 0x2F # r')" and "rest s = t @ r"
  shows "\<exists>s'. contentLoop ch tx s = Ok (ch, tx @ filter (\<lambda>c. \<not> isSpaceUnit c) t) s' \<and> rest s' = r"
  using assms
proof (induction "length t" arbitrary: t s tx rule: less_induct)
  case less
  note prems = less.prems
  let ?s1 = "skipWhitespace s"
  have r_drop: "dropWhile isSpaceUnit r = r"
    using prems(2) lt_not_space by auto
  show ?case
  proof (cases "rest s = []")
    case True
    with prems show ?thesis
      by (subst contentLoop.simps) simp
  next
    case ne: False
    show ?thesis
    proof (cases "dropWhile isSpaceUnit t")
      case Nil
      then have allsp: "\<forall>c\<in>set t. isSpaceUnit c"
        by (simp add: dropWhile_eq_Nil_conv)
      then have flt: "filter (\<lambda>c. \<not> isSpaceUnit c) t = []"
        by (simp add: filter_empty_conv)
      have "dropWhile isSpaceUnit (t @ r) = r"
        using allsp r_drop by (simp add: dropWhile_append2)
      then have r1: "rest ?s1 = r"
        unfolding rest_skipWhitespace prems(3) .
      show ?thesis
      proof (cases r)
        case rn: Nil
        with r1 have e: "rest ?s1 = []" by simp
        then have "advance ?s1 = ?s1" by (simp add: advance_def)
        moreover have "contentLoop ch tx ?s1 = Ok (ch, tx) ?s1"
          using e by (subst contentLoop.simps) simp
        ultimately have "contentLoop ch tx s = Ok (ch, tx) ?s1"
          using ne e by (subst contentLoop.simps) (simp add: current_Nil js_def)
        with flt e rn show ?thesis by simp
      next
        case (Cons a r0)
        with prems(2) obtain r' where r: "r = 0x3C # 0x2F # r'" by auto
        with r1 have "current ?s1 = js ''<''" and "peek 1 ?s1 = js ''/''"
          by (simp_all add: current_def peek_def js_def)
        with ne have "contentLoop ch tx s = Ok (ch, tx) ?s1"
          by (subst contentLoop.simps) simp
        with flt r1 show ?thesis by simp
      qed
    next
      case (Cons c t')
      have csp: "\<not> isSpaceUnit c"
        using hd_dropWhile [of isSpaceUnit t] Cons by simp
      have split: "t = takeWhile isSpaceUnit t @ c # t'"
        using takeWhile_dropWhile_id [of isSpaceUnit t] Cons by simp
      then have cin: "c \<in> set t" and sub': "set t' \<subseteq> set t"
        by (metis in_set_conv_decomp, metis set_subset_Cons set_append Un_upper2 subset_trans)
      from cin prems(1) have clt: "c \<noteq> 0x3C" by auto
      have len: "length t' < length t"
        using arg_cong [OF split, of length] by simp
      have sub: "0x3C \<notin> set t'"
        using sub' prems(1) by auto
      have "dropWhile isSpaceUnit (t @ r) = dropWhile isSpaceUnit (takeWhile isSpaceUnit t @ (c # t' @ r))"
        using split by (metis append.assoc append_Cons)
      also have "\<dots> = dropWhile isSpaceUnit (c # t' @ r)"
        by (rule dropWhile_append2) (simp add: set_takeWhileD [THEN conjunct2])
      also have "\<dots> = c # t' @ r"
        using csp by simp
      finally have "dropWhile isSpaceUnit (t @ r) = c # t' @ r" .
      then have r1: "rest ?s1 = c # t' @ r"
        unfolding rest_skipWhitespace prems(3) .
      then have cur: "current ?s1 = [c]" and adv: "rest (advance ?s1) = t' @ r"
        by (simp_all add: current_def rest_advance)
      from less.hyps [OF len sub prems(2) adv, of "tx @ [c]"]
      obtain s' where
        "contentLoop ch ((tx @ [c])) (advance ?s1) =
           Ok (ch, (tx @ [c]) @ filter (\<lambda>c. \<not> isSpaceUnit c) t') s'" and rs: "rest s' = r"
        by blast
      moreover have "filter (\<lambda>c. \<not> isSpaceUnit c) t = c # filter (\<lambda>c. \<not> isSpaceUnit c) t'"
      proof -
        have "filter (\<lambda>c. \<not> isSpaceUnit c) t
            = filter (\<lambda>c. \<not> isSpaceUnit c) (takeWhile isSpaceUnit t @ dropWhile isSpaceUnit t)"
          by simp
        also have "\<dots> = filter (\<lambda>c. \<not> isSpaceUnit c) (dropWhile isSpaceUnit t)"
        proof -
          have "filter (\<lambda>c. \<not> isSpaceUnit c) (takeWhile isSpaceUnit t) = []"
            unfolding filter_empty_conv using set_takeWhileD [of _ isSpaceUnit t] by blast
          then show ?thesis unfolding filter_append by simp
        qed
        finally show ?thesis using Cons csp by simp
      qed
      ultimately have "contentLoop ch tx s = Ok (ch, tx @ filter (\<lambda>c. \<not> isSpaceUnit c) t) s'"
        using ne cur clt by (subst contentLoop.simps) (simp add: js_def)
      with rs show ?thesis by blast
    qed
  qed
qed

lemma skipWhitespace_id: "rest s = c # cs \<Longrightarrow> \<not> isSpaceUnit c \<Longrightarrow> skipWhitespace s = s"
  by (subst skipWhitespace.simps) (simp add: current_def isSpaceUnit_def)

lemma gt_not_space: "\<not> isSpaceUnit 0x3E"
  by (simp add: isSpaceUnit_def isWhitespace_def js_def)

lemma attributesLoop_gt:
  assumes "rest s = 0x3E # x"
  shows "attributesLoop [] s = Ok [] s"
proof -
  have "skipWhitespace s = s"
    using assms gt_not_space by (rule skipWhitespace_id)
  moreover have "current s = js ''>''"
    using assms by (simp add: current_def js_def)
  ultimately show ?thesis
    using assms by (subst attributesLoop.simps) simp
qed

lemma nameStart_not_slash:
  assumes "isNameStartChar [c]"
  shows "c \<noteq> 0x2F" and "c \<noteq> 0x21" and "c \<noteq> 0x3F" and "\<not> isSpaceUnit c"
  using assms
  by (auto simp: isNameStartChar_def isAsciiLetter_def highNameChar_def isSpaceUnit_def
      isWhitespace_def js_def)

lemma parseElement_open:
  assumes "isName nm" and "rest s = 0x3C # nm @ 0x3E # x"
  shows "\<exists>s1. rest s1 = x \<and> parseElement s = parseElementContent nm [] s1"
proof -
  from assms(1) obtain c cs where nm: "nm = c # cs" and st: "isNameStartChar [c]"
    by (cases nm) (auto simp: isName_def)
  have cur: "current s = js ''<''"
    using assms(2) by (simp add: current_def js_def)
  have ra: "rest (advance s) = nm @ 0x3E # x"
    using assms(2) by (simp add: rest_advance)
  then have ns: "current (advance s) \<noteq> js ''/''"
    using nm nameStart_not_slash(1) [OF st] by (simp add: current_def js_def)
  from parseName_isName [OF assms(1) ra] gt_not_name
  obtain s2 where n: "parseName (advance s) = Ok nm s2" and r2: "rest s2 = 0x3E # x"
    by auto
  have a: "parseAttributes s2 = Ok [] s2"
    unfolding parseAttributes_def using r2 by (rule attributesLoop_gt)
  have w: "skipWhitespace s2 = s2"
    using r2 gt_not_space by (rule skipWhitespace_id)
  have c2: "current s2 = js ''>''"
    using r2 by (simp add: current_def js_def)
  have "parseElement s = parseElementContent nm [] (advance s2)"
    using cur ns n a w c2 by (subst parseElement.simps) (simp add: js_def)
  moreover have "rest (advance s2) = x"
    using r2 by (simp add: rest_advance)
  ultimately show ?thesis by blast
qed




lemma parseBody_root:
  assumes "isName nm" and "xml = 0x3C # nm @ x"
  shows "parseBody xml = Some (parseElement (initial xml))"
proof -
  from assms(1) obtain c cs where nm: "nm = c # cs" and st: "isNameStartChar [c]"
    by (cases nm) (auto simp: isName_def)
  have r: "rest (initial xml) = 0x3C # c # cs @ x"
    using assms(2) nm by (simp add: initial_def)
  have w: "skipWhitespace (initial xml) = initial xml"
    using r lt_not_space by (rule skipWhitespace_id)
  have "peek 1 (initial xml) = [c]"
    using r by (simp add: peek_def)
  then have "prologLoop (initial xml) = Some (initial xml)"
    using nameStart_not_slash [OF st] by (subst prologLoop.simps) (simp add: js_def)
  with w show ?thesis
    by (simp add: parseBody_def Let_def peek_short js_def)
qed















subsection \<open>Fail-fast parsing\<close>

lemma parse_of_throw:
  "parseBody xml = Some (Throw m e) \<Longrightarrow>
     parse xml = Some (None, [\<lparr>err_line = line e, err_column = column e, err_message = m,
                                err_code = js ''PARSE_ERROR''\<rparr>])"
  by (simp add: parse_def parseError_def)

lemma parse_unclosed:
  "parse (js ''<unclosed><tag>content</unclosed>'') =
     Some (None, [\<lparr>err_line = 1, err_column = 33,
        err_message = js ''End tag '' @ [0x27] @ js ''unclosed'' @ [0x27]
            @ js '' does not match start tag '' @ [0x27] @ js ''tag'' @ [0x27],
        err_code = js ''PARSE_ERROR''\<rparr>])"
  by code_simp

lemma parse_missing_equals:
  "parse (js ''<a b>'') =
     Some (None, [\<lparr>err_line = 1, err_column = 5,
        err_message = js ''Expected '' @ [0x27] @ js ''='' @ [0x27]
            @ js '' after attribute name '' @ [0x27] @ js ''b'' @ [0x27],
        err_code = js ''PARSE_ERROR''\<rparr>])"
  by code_simp

lemma parse_unterminated_value:
  "parse (js ''<a b='' @ [0x22] @ js ''x'') =
     Some (None, [\<lparr>err_line = 1, err_column = 8,
        err_message = js ''Unterminated attribute value'', err_code = js ''PARSE_ERROR''\<rparr>])"
  by code_simp

lemma parse_invalid_name_start:
  "parse (js ''<1>'') =
     Some (None, [\<lparr>err_line = 1, err_column = 2,
        err_message = js ''Invalid name start character: '' @ [0x27] @ js ''1'' @ [0x27],
        err_code = js ''PARSE_ERROR''\<rparr>])"
  by code_simp

lemma parse_unterminated_entity:
  "parse (js ''<a b='' @ [0x22] @ js ''&amp'' @ [0x22] @ js ''/>'') =
     Some (None, [\<lparr>err_line = 1, err_column = 14,
        err_message = js ''Unterminated entity'', err_code = js ''PARSE_ERROR''\<rparr>])"
  by code_simp

lemma parse_end_tag_first:
  "parse (js ''</'' @ x) =
     Some (None, [\<lparr>err_line = 1, err_column = 2, err_message = js ''Unexpected end tag'',
        err_code = js ''PARSE_ERROR''\<rparr>])"
proof -
  let ?s = "initial (js ''</'' @ x)"
  have r: "rest ?s = 0x3C # 0x2F # x"
    by (simp add: initial_def js_def)
  have w: "skipWhitespace ?s = ?s"
    using r lt_not_space by (rule skipWhitespace_id)
  have cur: "current ?s = js ''<''" and pk: "peek 1 ?s = js ''/''"
    using r by (simp_all add: current_def peek_def js_def)
  have p: "prologLoop ?s = Some ?s"
    using cur pk by (subst prologLoop.simps) (simp add: js_def)
  have a: "advance ?s = \<lparr>rest = 0x2F # x, position = 1, line = 1, column = 2\<rparr>"
    by (simp add: advance_def initial_def js_def)
  then have "current (advance ?s) = js ''/''"
    by (simp add: current_def js_def)
  with cur have "parseElement ?s = Throw (js ''Unexpected end tag'') (advance ?s)"
    by (subst parseElement.simps) simp
  with w p a show ?thesis
    by (simp add: parse_def parseBody_def Let_def no_declaration parseError_def)
qed

lemma parseEndTag_mismatch:
  assumes "isName nm'" and "nm' \<noteq> nm" and "rest s = 0x3C # 0x2F # nm' @ [0x3E]"
  shows "\<exists>e. parseEndTag nm s =
           Throw (js ''End tag '' @ [0x27] @ nm' @ [0x27] @ js '' does not match start tag ''
                  @ [0x27] @ nm @ [0x27]) e"
proof -
  have cur: "current s = js ''<''" and pk: "peek 1 s = js ''/''"
    using assms(3) by (simp_all add: current_def peek_def js_def)
  have "rest (advance (advance s)) = nm' @ [0x3E]"
    using assms(3) by (simp add: rest_advance)
  from parseName_isName [OF assms(1) this] gt_not_name
  obtain s1 where "parseName (advance (advance s)) = Ok nm' s1"
    by auto
  with cur pk assms(2) show ?thesis
    by (simp add: parseEndTag_def)
qed

lemma parse_mismatched_end_tag:
  assumes "isName nm" and "isName nm'" and "nm' \<noteq> nm" and "0x3C \<notin> set t"
  shows "\<exists>l c. parse (js ''<'' @ nm @ js ''>'' @ t @ js ''</'' @ nm' @ js ''>'') =
           Some (None, [\<lparr>err_line = l, err_column = c,
              err_message = js ''End tag '' @ [0x27] @ nm' @ [0x27]
                  @ js '' does not match start tag '' @ [0x27] @ nm @ [0x27],
              err_code = js ''PARSE_ERROR''\<rparr>])"
proof -
  let ?r = "0x3C # 0x2F # nm' @ [0x3E]"
  let ?xml = "0x3C # nm @ 0x3E # t @ ?r"
  have b: "parseBody ?xml = Some (parseElement (initial ?xml))"
    using assms(1) by (rule parseBody_root) simp
  have "rest (initial ?xml) = 0x3C # nm @ 0x3E # (t @ ?r)"
    by (simp add: initial_def)
  from parseElement_open [OF assms(1) this]
  obtain s1 where r1: "rest s1 = t @ ?r"
    and e: "parseElement (initial ?xml) = parseElementContent nm [] s1" by auto
  have "?r = [] \<or> (\<exists>r'. ?r = 0x3C # 0x2F # r')" by simp
  from contentLoop_text [OF assms(4) this r1, of "[]" "[]"]
  obtain s2 where l: "contentLoop [] [] s1 = Ok ([], filter (\<lambda>c. \<not> isSpaceUnit c) t) s2"
    and r2: "rest s2 = ?r" by auto
  from parseEndTag_mismatch [OF assms(2,3) r2]
  obtain e2 where "parseEndTag nm s2 =
      Throw (js ''End tag '' @ [0x27] @ nm' @ [0x27] @ js '' does not match start tag ''
             @ [0x27] @ nm @ [0x27]) e2" by auto
  with l have "parseElementContent nm [] s1 =
      Throw (js ''End tag '' @ [0x27] @ nm' @ [0x27] @ js '' does not match start tag ''
             @ [0x27] @ nm @ [0x27]) e2"
    by (subst parseElementContent.simps) simp
  with e b have "parse ?xml = Some (None, [parseError
      (js ''End tag '' @ [0x27] @ nm' @ [0x27] @ js '' does not match start tag ''
             @ [0x27] @ nm @ [0x27]) e2])"
    by (simp add: parse_def)
  then show ?thesis
    by (simp add: parseError_def js_def)
qed

text \<open>
  C2. Whenever the body of \<open>parse\<close> throws, with the cursor at \<open>e\<close>, \<open>parse\<close> returns no
  node and exactly one diagnostic: code \<open>PARSE_ERROR\<close>, the message of the error, line and
  column of \<open>e\<close>. Each structural violation of the list does throw: a mismatched end-tag
  name (the input \<open><unclosed><tag>content</unclosed>\<close>, and every \<open><nm>t</nm'>\<close> with two
  different names), an unexpected end tag (every input that starts with \<open></\<close>), a
  missing \<open>=\<close>, an unterminated quoted value, an invalid name-start character and an
  unterminated entity.
\<close>

theorem parse_fail_fast:
  "(\<forall>xml m e. parseBody xml = Some (Throw m e) \<longrightarrow>
      parse xml = Some (None, [\<lparr>err_line = line e, err_column = column e, err_message = m,
                                 err_code = js ''PARSE_ERROR''\<rparr>]))
   \<and> parse (js ''<unclosed><tag>content</unclosed>'') =
       Some (None, [\<lparr>err_line = 1, err_column = 33,
          err_message = js ''End tag '' @ [0x27] @ js ''unclosed'' @ [0x27]
              @ js '' does not match start tag '' @ [0x27] @ js ''tag'' @ [0x27],
          err_code = js ''PARSE_ERROR''\<rparr>])
   \<and> (\<forall>x. parse (js ''</'' @ x) =
       Some (None, [\<lparr>err_line = 1, err_column = 2, err_message = js ''Unexpected end tag'',
          err_code = js ''PARSE_ERROR''\<rparr>]))
   \<and> (\<forall>nm nm' t. isName nm \<and> isName nm' \<and> nm' \<noteq> nm \<and> 0x3C \<notin> set t \<longrightarrow>
       (\<exists>l c. parse (js ''<'' @ nm @ js ''>'' @ t @ js ''</'' @ nm' @ js ''>'') =
           Some (None, [\<lparr>err_line = l, err_column = c,
              err_message = js ''End tag '' @ [0x27] @ nm' @ [0x27]
                  @ js '' does not match start tag '' @ [0x27] @ nm @ [0x27],
              err_code = js ''PARSE_ERROR''\<rparr>])))
   \<and> parse (js ''<a b>'') =
       Some (None, [\<lparr>err_line = 1, err_column = 5,
          err_message = js ''Expected '' @ [0x27] @ js ''='' @ [0x27]
              @ js '' after attribute name '' @ [0x27] @ js ''b'' @ [0x27],
          err_code = js ''PARSE_ERROR''\<rparr>])
   \<and> parse (js ''<a b='' @ [0x22] @ js ''x'') =
       Some (None, [\<lparr>err_line = 1, err_column = 8,
          err_message = js ''Unterminated attribute value'', err_code = js ''PARSE_ERROR''\<rparr>])
   \<and> parse (js ''<1>'') =
       Some (None, [\<lparr>err_line = 1, err_column = 2,
          err_message = js ''Invalid name start character: '' @ [0x27] @ js ''1'' @ [0x27],
          err_code = js ''PARSE_ERROR''\<rparr>])
   \<and> parse (js ''<a b='' @ [0x22] @ js ''&amp'' @ [0x22] @ js ''/>'') =
       Some (None, [\<lparr>err_line = 1, err_column = 14,
          err_message = js ''Unterminated entity'', err_code = js ''PARSE_ERROR''\<rparr>])"
proof -
  have "\<exists>l c. parse (js ''<'' @ nm @ js ''>'' @ t @ js ''</'' @ nm' @ js ''>'') =
           Some (None, [\<lparr>err_line = l, err_column = c,
              err_message = js ''End tag '' @ [0x27] @ nm' @ [0x27]
                  @ js '' does not match start tag '' @ [0x27] @ nm @ [0x27],
              err_code = js ''PARSE_ERROR''\<rparr>])"
    if "isName nm \<and> isName nm' \<and> nm' \<noteq> nm \<and> 0x3C \<notin> set t" for nm nm' t
    using that parse_mismatched_end_tag [of nm nm' t] by simp
  then show ?thesis
    using parse_of_throw parse_unclosed parse_end_tag_first parse_missing_equals
      parse_unterminated_value parse_invalid_name_start parse_unterminated_entity
    by (intro conjI allI impI) simp_all
qed

lemma parseBody_end_tag:
  "parseBody (js ''</a>'') =
     Some (Throw (js ''Unexpected end tag'')
             \<lparr>rest = js ''/a>'', position = 1, line = 1, column = 2\<rparr>)"
  by code_simp

theorem parse_fail_fast_witness:
  "parseBody (js ''</a>'') =
     Some (Throw (js ''Unexpected end tag'')
             \<lparr>rest = js ''/a>'', position = 1, line = 1, column = 2\<rparr>)
   \<and> parse (js ''</a>'') =
       Some (None, [\<lparr>err_line = 1, err_column = 2, err_message = js ''Unexpected end tag'',
          err_code = js ''PARSE_ERROR''\<rparr>])"
proof -
  from parse_fail_fast have
    "parseBody (js ''</a>'') = Some (Throw (js ''Unexpected end tag'')
         \<lparr>rest = js ''/a>'', position = 1, line = 1, column = 2\<rparr>) \<longrightarrow>
     parse (js ''</a>'') = Some (None, [\<lparr>err_line = line \<lparr>rest = js ''/a>'', position = 1, line = 1, column = 2\<rparr>,
         err_column = column \<lparr>rest = js ''/a>'', position = 1, line = 1, column = 2\<rparr>,
         err_message = js ''Unexpected end tag'', err_code = js ''PARSE_ERROR''\<rparr>])"
    by blast
  with parseBody_end_tag show ?thesis by simp
qed

section \<open>Properties of the schema builder\<close>

lemma parseSchema_parse_failed:
  "parse xsd = Some (node, errors) \<Longrightarrow> errors \<noteq> [] \<or> node = None \<Longrightarrow>
     parseSchema h xsd = Some (None, errors)"
  by (simp add: parseSchema_def)

lemma parseSchema_build:
  assumes "parse xsd = Some (Some node, [])"
  shows "parseSchema h xsd =
           (case buildSchema h node of
              Inl m \<Rightarrow> Some (None, [\<lparr>err_line = 1, err_column = 1, err_message = m,
                                      err_code = js ''SCHEMA_ERROR''\<rparr>])
            | Inr schema \<Rightarrow> Some (Some schema, []))"
  using assms by (simp add: parseSchema_def schemaError_def split: sum.splits)

lemma buildSchema_not_schema:
  "node_name node \<noteq> js ''schema'' \<Longrightarrow> \<not> endsWith (node_name node) (js '':schema'') \<Longrightarrow>
     buildSchema h node = Inl (js ''Root element must be schema'')"
  by (simp add: buildSchema_def)

lemma colon_not_in_schema: "0x3A \<notin> set (js ''schema'')"
  by (simp add: js_def)

lemma localName_schema_iff:
  assumes "count_list nm 0x3A \<le> 1"
  shows "getLocalName nm = js ''schema'' \<longleftrightarrow> nm = js ''schema'' \<or> endsWith nm (js '':schema'')"
proof (cases "0x3A \<in> set nm")
  case False
  have "\<not> endsWith nm (js '':schema'')"
  proof
    assume "endsWith nm (js '':schema'')"
    then have "drop (length nm - length (js '':schema'')) nm = js '':schema''"
      by (simp add: endsWith_def)
    then have "0x3A \<in> set (drop (length nm - length (js '':schema'')) nm)"
      by (simp add: js_def)
    with False show False by (meson in_set_dropD)
  qed
  with False show ?thesis by (simp add: getLocalName_def)
next
  case True
  then obtain p q where nm: "nm = p @ 0x3A # q" and p: "0x3A \<notin> set p"
    by (meson split_list_first)
  from assms nm have q: "0x3A \<notin> set q"
    by (auto simp: count_list_0_iff [symmetric] simp del: count_list_0_iff)
  from p have "\<forall>x\<in>set p. x \<noteq> 0x3A" by blast
  then have "dropWhile (\<lambda>c. c \<noteq> 0x3A) (p @ 0x3A # q) = 0x3A # q"
    by (simp add: dropWhile_append3)
  with True nm have loc: "getLocalName nm = q"
    by (simp add: getLocalName_def)
  have ne: "nm \<noteq> js ''schema''"
    using True colon_not_in_schema by auto
  have "endsWith nm (js '':schema'') \<longleftrightarrow> q = js ''schema''"
  proof
    assume "q = js ''schema''"
    with nm show "endsWith nm (js '':schema'')"
      by (simp add: endsWith_def js_def)
  next
    assume "endsWith nm (js '':schema'')"
    then have "drop (length nm - length (js '':schema'')) nm = 0x3A # js ''schema''"
      by (simp add: endsWith_def js_def)
    then obtain pre where pre: "nm = pre @ 0x3A # js ''schema''"
      by (metis append_take_drop_id)
    from pre nm have "p @ 0x3A # q = pre @ 0x3A # js ''schema''"
      by simp
    with p q show "q = js ''schema''"
      by (simp add: append_Cons_eq_iff)
  qed
  with loc ne show ?thesis by simp
qed

text \<open>
  C6 (amended). \<open>parseSchema\<close> runs the parser first: if it returns a diagnostic or no tree,
  those diagnostics are returned unchanged with no schema. Given a tree whose root name is
  neither \<open>schema\<close> nor ends with \<open>:schema\<close>, or when the builder throws, the result is no
  schema and exactly one diagnostic with code \<open>SCHEMA_ERROR\<close> at (1,1); otherwise the built
  schema is returned with no diagnostic. For a name with at most one colon the test on the
  root name is the test that its local name is \<open>schema\<close>.
\<close>

theorem parseSchema_outcomes:
  "(\<forall>node errors. parse xsd = Some (node, errors) \<and> (errors \<noteq> [] \<or> node = None) \<longrightarrow>
      parseSchema h xsd = Some (None, errors))
   \<and> (\<forall>node. parse xsd = Some (Some node, []) \<and> node_name node \<noteq> js ''schema''
         \<and> \<not> endsWith (node_name node) (js '':schema'') \<longrightarrow>
      parseSchema h xsd =
        Some (None, [\<lparr>err_line = 1, err_column = 1,
                       err_message = js ''Root element must be schema'',
                       err_code = js ''SCHEMA_ERROR''\<rparr>]))
   \<and> (\<forall>node m. parse xsd = Some (Some node, []) \<and> buildSchema h node = Inl m \<longrightarrow>
      parseSchema h xsd =
        Some (None, [\<lparr>err_line = 1, err_column = 1, err_message = m,
                       err_code = js ''SCHEMA_ERROR''\<rparr>]))
   \<and> (\<forall>node schema. parse xsd = Some (Some node, []) \<and> buildSchema h node = Inr schema \<longrightarrow>
      parseSchema h xsd = Some (Some schema, []))
   \<and> (\<forall>nm. count_list nm 0x3A \<le> 1 \<longrightarrow>
      (getLocalName nm = js ''schema'' \<longleftrightarrow> nm = js ''schema'' \<or> endsWith nm (js '':schema'')))"
proof (intro conjI allI impI)
  fix node errors
  assume "parse xsd = Some (node, errors) \<and> (errors \<noteq> [] \<or> node = None)"
  then show "parseSchema h xsd = Some (None, errors)"
    using parseSchema_parse_failed by blast
next
  fix node
  assume a: "parse xsd = Some (Some node, []) \<and> node_name node \<noteq> js ''schema''
         \<and> \<not> endsWith (node_name node) (js '':schema'')"
  then have "buildSchema h node = Inl (js ''Root element must be schema'')"
    by (simp add: buildSchema_not_schema)
  with a show "parseSchema h xsd =
        Some (None, [\<lparr>err_line = 1, err_column = 1,
                       err_message = js ''Root element must be schema'',
                       err_code = js ''SCHEMA_ERROR''\<rparr>])"
    by (simp add: parseSchema_build)
next
  fix node m
  assume "parse xsd = Some (Some node, []) \<and> buildSchema h node = Inl m"
  then show "parseSchema h xsd =
        Some (None, [\<lparr>err_line = 1, err_column = 1, err_message = m,
                       err_code = js ''SCHEMA_ERROR''\<rparr>])"
    by (simp add: parseSchema_build)
next
  fix node schema
  assume "parse xsd = Some (Some node, []) \<and> buildSchema h node = Inr schema"
  then show "parseSchema h xsd = Some (Some schema, [])"
    by (simp add: parseSchema_build)
next
  fix nm :: jstring
  assume "count_list nm 0x3A \<le> 1"
  then show "getLocalName nm = js ''schema'' \<longleftrightarrow> nm = js ''schema'' \<or> endsWith nm (js '':schema'')"
    by (rule localName_schema_iff)
qed

lemma parse_a_b_root:
  "parse (js ''<a:b/>'') = Some (Some (XmlNode (js ''a:b'') [] [] None None), [])"
  by code_simp

theorem parseSchema_outcomes_witness:
  "parse (js ''<a:b/>'') = Some (Some (XmlNode (js ''a:b'') [] [] None None), [])
   \<and> node_name (XmlNode (js ''a:b'') [] [] None None) \<noteq> js ''schema''
   \<and> \<not> endsWith (node_name (XmlNode (js ''a:b'') [] [] None None)) (js '':schema'')
   \<and> parseSchema fragmentHost (js ''<a:b/>'') =
        Some (None, [\<lparr>err_line = 1, err_column = 1,
                       err_message = js ''Root element must be schema'',
                       err_code = js ''SCHEMA_ERROR''\<rparr>])"
proof -
  have n: "node_name (XmlNode (js ''a:b'') [] [] None None) \<noteq> js ''schema''"
    and e: "\<not> endsWith (node_name (XmlNode (js ''a:b'') [] [] None None)) (js '':schema'')"
    by (simp_all add: js_def endsWith_def)
  from parseSchema_outcomes [of "js ''<a:b/>''" fragmentHost] parse_a_b_root n e
  show ?thesis by blast
qed

text \<open>
  C6 as stated fails for a root name with two colons: the local name of \<open>a:b:schema\<close> is
  \<open>b:schema\<close>, yet the schema text \<open><a:b:schema/>\<close> is accepted.
\<close>

theorem parseSchema_two_colons:
  "getLocalName (js ''a:b:schema'') \<noteq> js ''schema''
   \<and> parseSchema fragmentHost (js ''<a:b:schema/>'') =
       Some (Some \<lparr>targetNamespace = None, elements = [], complexTypes = [], simpleTypes = [],
                    namespaces = []\<rparr>, [])"
proof -
  have "getLocalName (js ''a:b:schema'') \<noteq> js ''schema''"
    by code_simp
  moreover have "parse (js ''<a:b:schema/>'') =
      Some (Some (XmlNode (js ''a:b:schema'') [] [] None None), [])"
    by code_simp
  moreover have "buildSchema fragmentHost (XmlNode (js ''a:b:schema'') [] [] None None) =
      Inr \<lparr>targetNamespace = None, elements = [], complexTypes = [], simpleTypes = [],
            namespaces = []\<rparr>"
    by (simp add: buildSchema_def endsWith_def js_def)
  ultimately show ?thesis
    by (simp add: parseSchema_build)
qed

section \<open>Properties of the validator\<close>

text \<open>A literal in which each backquote stands for a double quote.\<close>

definition jsq :: "string \<Rightarrow> jstring" where
  "jsq cs = map (\<lambda>c. if c = 0x60 then 0x22 else c) (js cs)"

subsection \<open>A pattern that does not compile\<close>

definition badPatternXsd :: jstring where
  "badPatternXsd = jsq ''<xs:schema><xs:element name=`c` type=`T`/><xs:simpleType name=`T`><xs:restriction base=`string`><xs:pattern value=`[`/></xs:restriction></xs:simpleType></xs:schema>''"

definition badPatternSchema :: XsdSchema where
  "badPatternSchema =
     \<lparr>targetNamespace = None,
      elements = [(js ''c'', XsdElement (js ''c'') (js ''T'') (Fin 1) (Bounded (Fin 1)) [] [] None None)],
      complexTypes = [],
      simpleTypes = [(js ''T'', \<lparr>st_name = js ''T'', st_baseType = js ''string'',
                        st_restrictions = [\<lparr>r_type = js ''pattern'', r_value = StrVal (js ''['')\<rparr>]\<rparr>)],
      namespaces = []\<rparr>"

lemma badPatternSchema_built:
  "parseSchema fragmentHost badPatternXsd = Some (Some badPatternSchema, [])"
  by code_simp

lemma parse_c_abc:
  "parse (js ''<c>abc</c>'') = Some (Some (XmlNode (js ''c'') [] [] (Some (js ''abc'')) None), [])"
  by code_simp

lemma fragment_open_class: "regExpCompile fragmentHost (js ''['') = None"
  by code_simp

text \<open>
  C1. \<open>validate\<close> does throw: on a host whose \<open>new RegExp\<close> rejects the pattern \<open>[\<close> (an
  unterminated class), validating \<open><c>abc</c>\<close> against a schema whose simple type has
  that pattern facet ends in the \<open>SyntaxError\<close>, not in a list of diagnostics. The schema
  is the one \<open>parseSchema\<close> builds from \<open>badPatternXsd\<close>.
\<close>

theorem validate_throws_on_bad_pattern:
  "regExpCompile h (js ''['') = None \<Longrightarrow>
     validate h badPatternSchema (XmlNode (js ''c'') [] [] (Some (js ''abc'')) None) = Inl SyntaxError"
  by (simp add: validate_def badPatternSchema_def validateElement.simps isBuiltInType_def
      validateAttributes_def validateSimpleTypeContent_def validateRestriction_def
      facetString_def js_def)

theorem validate_throws_on_bad_pattern_witness:
  "regExpCompile fragmentHost (js ''['') = None
   \<and> parseSchema fragmentHost badPatternXsd = Some (Some badPatternSchema, [])
   \<and> parse (js ''<c>abc</c>'') = Some (Some (XmlNode (js ''c'') [] [] (Some (js ''abc'')) None), [])
   \<and> validate fragmentHost badPatternSchema (XmlNode (js ''c'') [] [] (Some (js ''abc'')) None)
       = Inl SyntaxError"
  using validate_throws_on_bad_pattern [OF fragment_open_class] fragment_open_class
    badPatternSchema_built parse_c_abc
  by simp

subsection \<open>The pattern facet\<close>

lemma validateRestriction_pattern:
  "r_type restriction = js ''pattern'' \<Longrightarrow>
     validateRestriction h v restriction lno cno elementName errors =
       (case regExpCompile h (facetString h (r_value restriction)) of
          None \<Rightarrow> Inl SyntaxError
        | Some regex \<Rightarrow>
            Inr (if regExpTest h regex v then errors
                 else errors @ [\<lparr>err_line = lno, err_column = cno,
                        err_message = js ''Value '' @ quoted v @ js '' in element '' @ quoted elementName
                          @ js '' does not match pattern ''
                          @ quoted (facetString h (r_value restriction)),
                        err_code = js ''PATTERN_VIOLATION''\<rparr>]))"
  by (simp add: validateRestriction_def addError_def inElement_def js_def split: option.splits)

text \<open>The reading of the facet as a match of the entire value, on the fragment.\<close>

definition fragmentFullMatch :: "rx \<Rightarrow> jstring \<Rightarrow> bool" where
  "fragmentFullMatch r v =
     (case r of
        Fragment items \<Rightarrow> length (rxExpand items) = length v \<and> matchHere (rxExpand items) v
      | Outside \<Rightarrow> False)"

definition isbnSchema :: XsdSchema where
  "isbnSchema =
     \<lparr>targetNamespace = None,
      elements = [(js ''isbn'', XsdElement (js ''isbn'') (js ''ISBNType'') (Fin 1) (Bounded (Fin 1))
                     [] [] None None)],
      complexTypes = [],
      simpleTypes = [(js ''ISBNType'', \<lparr>st_name = js ''ISBNType'', st_baseType = js ''string'',
                        st_restrictions = [\<lparr>r_type = js ''pattern'',
                                            r_value = StrVal (js ''[0-9]{3}-[0-9]{10}'')\<rparr>]\<rparr>)],
      namespaces = []\<rparr>"

definition isbnNode :: "jstring \<Rightarrow> XmlNode" where
  "isbnNode v = XmlNode (js ''isbn'') [] [] (Some v) None"

lemma isbn_compiled:
  "regExpCompile fragmentHost (js ''[0-9]{3}-[0-9]{10}'') =
     Some (Fragment [RxItem [(0x30, 0x39)] 3, RxItem [(0x2D, 0x2D)] 1, RxItem [(0x30, 0x39)] 10])"
  by code_simp

lemma isbn_not_full:
  "\<not> fragmentFullMatch (Fragment [RxItem [(0x30, 0x39)] 3, RxItem [(0x2D, 0x2D)] 1, RxItem [(0x30, 0x39)] 10])
       (js ''x978-0142437171'')"
  by code_simp

lemma isbn_substring_accepted: "validate fragmentHost isbnSchema (isbnNode (js ''x978-0142437171'')) = Inr []"
  by code_simp

lemma isbn_invalid:
  "validate fragmentHost isbnSchema (isbnNode (js ''invalid-isbn'')) =
     Inr [\<lparr>err_line = 1, err_column = 1,
           err_message = js ''Value '' @ quoted (js ''invalid-isbn'') @ js '' in element ''
             @ quoted (js ''isbn'') @ js '' does not match pattern ''
             @ quoted (js ''[0-9]{3}-[0-9]{10}''),
           err_code = js ''PATTERN_VIOLATION''\<rparr>]"
  by code_simp

lemma isbn_valid: "validate fragmentHost isbnSchema (isbnNode (js ''978-0142437171'')) = Inr []"
  by code_simp

text \<open>
  C4. The pattern facet is checked with \<open>test\<close>, which searches the value for a match:
  with the pattern \<open>[0-9]{3}-[0-9]{10}\<close> the value \<open>x978-0142437171\<close>, which the pattern
  does not match in full, raises no \<open>PATTERN_VIOLATION\<close>; \<open>978-0142437171\<close> raises none
  and \<open>invalid-isbn\<close> raises exactly one.
\<close>

theorem pattern_facet_searches:
  "regExpCompile fragmentHost (js ''[0-9]{3}-[0-9]{10}'') =
     Some (Fragment [RxItem [(0x30, 0x39)] 3, RxItem [(0x2D, 0x2D)] 1, RxItem [(0x30, 0x39)] 10])
   \<and> \<not> fragmentFullMatch
         (Fragment [RxItem [(0x30, 0x39)] 3, RxItem [(0x2D, 0x2D)] 1, RxItem [(0x30, 0x39)] 10])
         (js ''x978-0142437171'')
   \<and> validate fragmentHost isbnSchema (isbnNode (js ''x978-0142437171'')) = Inr []
   \<and> validate fragmentHost isbnSchema (isbnNode (js ''978-0142437171'')) = Inr []
   \<and> validate fragmentHost isbnSchema (isbnNode (js ''invalid-isbn'')) =
       Inr [\<lparr>err_line = 1, err_column = 1,
             err_message = js ''Value '' @ quoted (js ''invalid-isbn'') @ js '' in element ''
               @ quoted (js ''isbn'') @ js '' does not match pattern ''
               @ quoted (js ''[0-9]{3}-[0-9]{10}''),
             err_code = js ''PATTERN_VIOLATION''\<rparr>]"
  using isbn_compiled isbn_not_full isbn_substring_accepted isbn_valid isbn_invalid
  by simp

subsection \<open>Occurrence bounds\<close>














subsection \<open>Required attributes\<close>



















subsection \<open>The name-mismatch branch\<close>



























end
